theory Spec2Isabelle
  imports Main "HOL-Library.AList"
begin

section \<open>The import module of compass-import-export (modules/import.ts)\<close>

text \<open>
  A shallow embedding of \<^verbatim>\<open>src/packages/compass-import-export/src/modules/import.ts\<close>:
  the session state and its reducer, the thunks \<^verbatim>\<open>startImport\<close>, \<^verbatim>\<open>cancelImport\<close>,
  \<^verbatim>\<open>skipCSVAnalyze\<close>, \<^verbatim>\<open>loadTypes\<close>, \<^verbatim>\<open>openImport\<close> and the grouping of CSV header columns
  in \<^verbatim>\<open>loadCSVPreviewDocs\<close>.

  JavaScript values are modelled as follows. A string is a \<open>string\<close>. A property that may
  be \<^verbatim>\<open>undefined\<close> is an \<open>option\<close> (\<open>None\<close> is \<^verbatim>\<open>undefined\<close>). An \<^verbatim>\<open>AbortController\<close> is an
  object with identity and one mutable flag, so it is a number (its identity) and the flags
  of all controllers are kept in one place, the set of controllers that were aborted.
  An exception is a value of a sum type. An \<^verbatim>\<open>await\<close> splits a thunk into the segments that
  run without interruption.
\<close>

subsection \<open>Constants and types that import.ts imports\<close>

text \<open>
  Modelled from the spec: \<^verbatim>\<open>constants/process-status\<close> is not among the sources. import.ts
  uses its five members \<^verbatim>\<open>UNSPECIFIED\<close>, \<^verbatim>\<open>STARTED\<close>, \<^verbatim>\<open>CANCELED\<close>, \<^verbatim>\<open>COMPLETED\<close> and \<^verbatim>\<open>FAILED\<close>
  (the spec's session status: unspecified, started, completed, canceled, failed); they are
  taken to be five different values.
\<close>

datatype ProcessStatus =
    PS_UNSPECIFIED
  | PS_STARTED
  | PS_CANCELED
  | PS_COMPLETED
  | PS_FAILED

text \<open>
  Modelled from the spec: \<^verbatim>\<open>constants/file-types\<close> is not among the sources. A file type is
  a string; \<^verbatim>\<open>startImport\<close> compares it with \<^verbatim>\<open>FILE_TYPES.CSV\<close> in one place and with the
  literal \<^verbatim>\<open>'csv'\<close> in another, and \<^verbatim>\<open>selectImportFileName\<close> stores \<^verbatim>\<open>'csv'\<close> or \<^verbatim>\<open>'json'\<close>.
\<close>

definition FILE_TYPES_CSV :: string where
  "FILE_TYPES_CSV = ''csv''"

definition FILE_TYPES_JSON :: string where
  "FILE_TYPES_JSON = ''json''"

type_synonym AbortController = nat

text \<open>The controllers whose \<^verbatim>\<open>abort()\<close> was called (\<^verbatim>\<open>signal.aborted\<close> is true).\<close>

type_synonym Signals = "AbortController set"

text \<open>\<^verbatim>\<open>CSVParsableFieldType\<close> (csv/csv-types) is a union of string literals.\<close>

type_synonym CSVParsableFieldType = string

text \<open>\<^verbatim>\<open>CSVField\<close>: of an analysis result for one field, import.ts reads \<^verbatim>\<open>detected\<close> only.\<close>

record CSVField =
  detected :: CSVParsableFieldType

text \<open>
  \<^verbatim>\<open>AnalyzeCSVFieldsResult\<close>: import.ts reads \<^verbatim>\<open>result.fields[path]\<close>, which is \<^verbatim>\<open>undefined\<close>
  for a path the analysis has no entry for.
\<close>

record AnalyzeCSVFieldsResult =
  ar_fields :: "(string \<times> CSVField) list"

text \<open>\<^verbatim>\<open>ImportResult\<close> (import/import-types); \<^verbatim>\<open>aborted\<close> is optional.\<close>

record ImportResult =
  aborted :: "bool option"
  docsWritten :: nat
  docsProcessed :: nat

text \<open>
  An \<^verbatim>\<open>Error\<close> (or \<^verbatim>\<open>ErrorJSON\<close>): its message, and the \<^verbatim>\<open>result\<close> property that
  \<^verbatim>\<open>startImport\<close> reads from a rejection of the importer (\<^verbatim>\<open>err.result.docsWritten\<close>).
\<close>

record Error =
  message :: string
  err_result :: "ImportResult option"

datatype CSVDelimiter = Comma | Tab | Semicolon | Space

subsection \<open>The session state\<close>

text \<open>
  \<^verbatim>\<open>FieldFromCSV | FieldFromJSON\<close>. The two shapes are told apart by probing for the \<^verbatim>\<open>type\<close>
  property (\<^verbatim>\<open>csvFields\<close>), so a field is one record whose CSV-only properties may be
  missing.
\<close>

record FieldType =
  path :: string
  checked :: bool
  isArray :: "bool option"
  type :: "CSVParsableFieldType option"
  result :: "CSVField option"

text \<open>
  A cell of the preview grid. \<^verbatim>\<open>loadCSVPreviewDocs\<close> copies \<^verbatim>\<open>row[i]\<close> into the grid, which is
  \<^verbatim>\<open>undefined\<close> where the row is shorter than the header.
\<close>

type_synonym cell = "string option"

record State =
  isOpen :: bool
  isInProgressMessageOpen :: bool
  errors :: "Error list"
  fileType :: string
  fileName :: string
  errorLogFilePath :: string
  fileIsMultilineJSON :: bool
  useHeaderLines :: bool
  status :: ProcessStatus
  fileStats :: "nat option"
  analyzeBytesProcessed :: nat
  analyzeBytesTotal :: nat
  delimiter :: "CSVDelimiter option"
  stopOnErrors :: bool
  ignoreBlanks :: bool
  fields' :: "FieldType list"
  values' :: "cell list list"
  previewLoaded :: bool
  exclude :: "string list"
  transform :: "(string \<times> CSVParsableFieldType option) list"
  abortController :: "AbortController option"
  analyzeAbortController :: "AbortController option"
  analyzeResult :: "AnalyzeCSVFieldsResult option"
  analyzeStatus :: ProcessStatus
  analyzeError :: "Error option"

text \<open>\<^verbatim>\<open>fileStats\<close> holds the \<^verbatim>\<open>size\<close> of the \<^verbatim>\<open>fs.Stats\<close>, the one property import.ts reads.\<close>

definition INITIAL_STATE :: State where
  "INITIAL_STATE = \<lparr>
     isOpen = False,
     isInProgressMessageOpen = False,
     errors = [],
     fileType = '''',
     fileName = '''',
     errorLogFilePath = '''',
     fileIsMultilineJSON = False,
     useHeaderLines = True,
     status = PS_UNSPECIFIED,
     fileStats = None,
     analyzeBytesProcessed = 0,
     analyzeBytesTotal = 0,
     delimiter = Some Comma,
     stopOnErrors = False,
     ignoreBlanks = True,
     fields' = [],
     values' = [],
     previewLoaded = False,
     exclude = [],
     transform = [],
     abortController = None,
     analyzeAbortController = None,
     analyzeResult = None,
     analyzeStatus = PS_UNSPECIFIED,
     analyzeError = None \<rparr>"

subsection \<open>Actions\<close>

text \<open>
  One constructor for each action name of import.ts, with the payload its action creator
  or dispatch site gives it; \<open>DATA_SERVICE_DISCONNECTED\<close> comes from
  \<^verbatim>\<open>compass/data-service\<close>, and \<open>OTHER\<close> is an action of any other type.
\<close>

datatype AnyAction =
    STARTED AbortController string
  | CANCELED
  | FINISHED bool "Error list"
  | FAILED Error
  | FILE_TYPE_SELECTED string
  | FILE_SELECTED "CSVDelimiter option" string "nat option" bool string
  | FILE_SELECT_ERROR Error
  | OPEN
  | CLOSE
  | OPEN_IN_PROGRESS_MESSAGE
  | CLOSE_IN_PROGRESS_MESSAGE
  | SET_PREVIEW "FieldType list" "cell list list"
  | SET_DELIMITER "CSVDelimiter option"
  | SET_GUESSTIMATED_TOTAL
  | SET_STOP_ON_ERRORS bool
  | SET_IGNORE_BLANKS bool
  | TOGGLE_INCLUDE_FIELD string
  | SET_FIELD_TYPE string string
  | ANALYZE_STARTED AbortController nat
  | ANALYZE_FINISHED AnalyzeCSVFieldsResult
  | ANALYZE_FAILED Error
  | ANALYZE_CANCELLED
  | ANALYZE_PROGRESS nat
  | DATA_SERVICE_DISCONNECTED
  | OTHER string

definition onStarted :: "AbortController \<Rightarrow> string \<Rightarrow> AnyAction" where
  "onStarted abortController' errorLogFilePath' = STARTED abortController' errorLogFilePath'"

definition onFinished :: "bool \<Rightarrow> Error list \<Rightarrow> AnyAction" where
  "onFinished aborted' errors' = FINISHED aborted' errors'"

definition onFailed :: "Error \<Rightarrow> AnyAction" where
  "onFailed error = FAILED error"

definition onFileSelectError :: "Error \<Rightarrow> AnyAction" where
  "onFileSelectError error = FILE_SELECT_ERROR error"

definition toggleIncludeField :: "string \<Rightarrow> AnyAction" where
  "toggleIncludeField p = TOGGLE_INCLUDE_FIELD p"

definition setFieldType :: "string \<Rightarrow> string \<Rightarrow> AnyAction" where
  "setFieldType p bsonType = SET_FIELD_TYPE p bsonType"

subsection \<open>The reducer\<close>

text \<open>\<^verbatim>\<open>csvFields\<close>: the fields that have a \<^verbatim>\<open>type\<close> property.\<close>

definition csvFields :: "FieldType list \<Rightarrow> FieldType list" where
  "csvFields fs = filter (\<lambda>field. type field \<noteq> None) fs"

text \<open>\<^verbatim>\<open>controller?.abort()\<close>: nothing for \<^verbatim>\<open>undefined\<close>, else the controller's flag is set.\<close>

definition abort :: "AbortController option \<Rightarrow> Signals \<Rightarrow> Signals" where
  "abort c sg = (case c of None \<Rightarrow> sg | Some a \<Rightarrow> insert a sg)"

text \<open>
  The reducer, case by case in the order of the source. It is a function of the state
  and the action, but for \<open>DATA_SERVICE_DISCONNECTED\<close>, where it calls \<^verbatim>\<open>abort()\<close> on the
  controllers the state holds: so it takes and returns the controllers' flags as well.
  \<open>TOGGLE_INCLUDE_FIELD\<close> and \<open>SET_FIELD_TYPE\<close> write to the field objects in place; the
  model returns the fields of the new state (the field objects of one list are different
  objects: \<^verbatim>\<open>loadCSVPreviewDocs\<close> makes a new one for each).
\<close>

fun reducer :: "Signals \<Rightarrow> State \<Rightarrow> AnyAction \<Rightarrow> Signals \<times> State" where
  "reducer sg state (FILE_SELECTED delimiter' fileName' fileStats' fileIsMultilineJSON' fileType') =
     (sg, state\<lparr>
        delimiter := delimiter',
        fileName := fileName',
        fileType := fileType',
        fileStats := fileStats',
        fileIsMultilineJSON := fileIsMultilineJSON',
        status := PS_UNSPECIFIED,
        errors := [],
        abortController := None,
        analyzeAbortController := None,
        fields' := [] \<rparr>)"
| "reducer sg state (FILE_TYPE_SELECTED fileType') =
     (sg, state\<lparr> fileType := fileType' \<rparr>)"
| "reducer sg state (SET_STOP_ON_ERRORS stopOnErrors') =
     (sg, state\<lparr> stopOnErrors := stopOnErrors' \<rparr>)"
| "reducer sg state (SET_IGNORE_BLANKS ignoreBlanks') =
     (sg, state\<lparr> ignoreBlanks := ignoreBlanks' \<rparr>)"
| "reducer sg state (SET_DELIMITER delimiter') =
     (sg, state\<lparr> delimiter := delimiter' \<rparr>)"
| "reducer sg state (SET_PREVIEW newFields values'') =
     (sg, state\<lparr>
        values' := values'',
        fields' := newFields,
        previewLoaded := True,
        exclude := [],
        transform := map (\<lambda>field. (path field, type field)) (filter checked newFields) \<rparr>)"
| "reducer sg state (TOGGLE_INCLUDE_FIELD path') =
     (let newFields =
            map (\<lambda>field. if path field = path' then field\<lparr> checked := \<not> checked field \<rparr> else field)
              (fields' state)
      in (sg, state\<lparr>
            fields' := newFields,
            transform := map (\<lambda>field. (path field, type field)) (csvFields newFields),
            exclude := map path (filter (\<lambda>field. \<not> checked field) newFields) \<rparr>))"
| "reducer sg state (SET_FIELD_TYPE path' bsonType) =
     (let newFields =
            map (\<lambda>field. if path field = path'
                          then field\<lparr> checked := True, type := Some bsonType \<rparr> else field)
              (fields' state)
      in (sg, state\<lparr>
            fields' := newFields,
            transform := map (\<lambda>field. (path field, type field))
                           (filter checked (csvFields newFields)),
            exclude := map path (filter (\<lambda>field. \<not> checked field) newFields) \<rparr>))"
| "reducer sg state (FILE_SELECT_ERROR error) =
     (sg, state\<lparr> errors := [error] \<rparr>)"
| "reducer sg state (FAILED error) =
     (sg, state\<lparr> errors := [error], status := PS_FAILED, abortController := None \<rparr>)"
| "reducer sg state (STARTED abortController' errorLogFilePath') =
     (sg, state\<lparr>
        isOpen := False,
        errors := [],
        status := PS_STARTED,
        abortController := Some abortController',
        errorLogFilePath := errorLogFilePath' \<rparr>)"
| "reducer sg state (FINISHED aborted' errors') =
     (let status' = (if aborted' then PS_CANCELED else PS_COMPLETED)
      in (sg, state\<lparr> status := status', errors := errors', abortController := None \<rparr>))"
| "reducer sg state OPEN =
     (sg, INITIAL_STATE\<lparr> isOpen := True \<rparr>)"
| "reducer sg state CLOSE =
     (sg, state\<lparr> isOpen := False \<rparr>)"
| "reducer sg state OPEN_IN_PROGRESS_MESSAGE =
     (sg, state\<lparr> isInProgressMessageOpen := True \<rparr>)"
| "reducer sg state CLOSE_IN_PROGRESS_MESSAGE =
     (sg, state\<lparr> isInProgressMessageOpen := False \<rparr>)"
| "reducer sg state (ANALYZE_STARTED abortController' analyzeBytesTotal') =
     (sg, state\<lparr>
        analyzeStatus := PS_STARTED,
        analyzeAbortController := Some abortController',
        analyzeError := None,
        analyzeBytesProcessed := 0,
        analyzeBytesTotal := analyzeBytesTotal' \<rparr>)"
| "reducer sg state (ANALYZE_FINISHED result') =
     (sg, state\<lparr>
        analyzeStatus := PS_COMPLETED,
        analyzeAbortController := None,
        analyzeResult := Some result',
        analyzeError := None \<rparr>)"
| "reducer sg state (ANALYZE_FAILED error) =
     (sg, state\<lparr>
        analyzeStatus := PS_FAILED,
        analyzeAbortController := None,
        analyzeError := Some error \<rparr>)"
| "reducer sg state ANALYZE_CANCELLED =
     (sg, state\<lparr> analyzeAbortController := None, analyzeError := None \<rparr>)"
| "reducer sg state (ANALYZE_PROGRESS analyzeBytesProcessed') =
     (sg, state\<lparr> analyzeBytesProcessed := analyzeBytesProcessed' \<rparr>)"
| "reducer sg state DATA_SERVICE_DISCONNECTED =
     (abort (analyzeAbortController state) (abort (abortController state) sg),
      state\<lparr> analyzeAbortController := None, abortController := None, isOpen := False \<rparr>)"
| "reducer sg state CANCELED = (sg, state)"
| "reducer sg state SET_GUESSTIMATED_TOTAL = (sg, state)"
| "reducer sg state (OTHER other) = (sg, state)"

subsection \<open>JavaScript objects used as dictionaries\<close>

text \<open>
  \<^verbatim>\<open>fieldMap\<close> in \<^verbatim>\<open>loadCSVPreviewDocs\<close> and \<^verbatim>\<open>fields\<close> in \<^verbatim>\<open>startImport\<close> are object literals
  \<^verbatim>\<open>{}\<close> indexed by arbitrary strings. Such an object is an association list of its own
  properties, in insertion order; reading a key it does not own falls through to
  \<^verbatim>\<open>Object.prototype\<close>, whose property names are listed here. Each of them holds a function
  (\<^verbatim>\<open>__proto__\<close> holds the prototype object): a truthy value that is no array.
\<close>

definition objectPrototypeNames :: "string list" where
  "objectPrototypeNames =
     [''constructor'', ''__proto__'', ''hasOwnProperty'', ''isPrototypeOf'',
      ''propertyIsEnumerable'', ''toLocaleString'', ''toString'', ''valueOf'',
      ''__defineGetter__'', ''__defineSetter__'', ''__lookupGetter__'', ''__lookupSetter__'']"

datatype 'a Property = Own 'a | Inherited | Missing

text \<open>\<^verbatim>\<open>obj[key]\<close>: the own property, else the inherited one, else \<^verbatim>\<open>undefined\<close>.\<close>

definition getProperty :: "(string \<times> 'a) list \<Rightarrow> string \<Rightarrow> 'a Property" where
  "getProperty obj key =
     (case map_of obj key of
        Some v \<Rightarrow> Own v
      | None \<Rightarrow> if key \<in> set objectPrototypeNames then Inherited else Missing)"

text \<open>
  \<^verbatim>\<open>obj[key] = v\<close> for a value that is a string or an array: an own property is made or
  overwritten, but for the key \<^verbatim>\<open>__proto__\<close>, whose setter ignores a string.
\<close>

definition setProperty :: "string \<Rightarrow> 'a \<Rightarrow> (string \<times> 'a) list \<Rightarrow> (string \<times> 'a) list" where
  "setProperty key v obj = (if key = ''__proto__'' then obj else AList.update key v obj)"

text \<open>A \<^verbatim>\<open>TypeError\<close> with its message.\<close>

definition TypeError :: "string \<Rightarrow> Error" where
  "TypeError m = \<lparr> message = m, err_result = None \<rparr>"

subsection \<open>Built-in string functions\<close>

text \<open>\<^verbatim>\<open>s.endsWith(suffix)\<close>\<close>

definition endsWith :: "string \<Rightarrow> string \<Rightarrow> bool" where
  "endsWith s suffix' =
     (length suffix' \<le> length s \<and> drop (length s - length suffix') s = suffix')"

text \<open>\<^verbatim>\<open>xs.join(sep)\<close> on an array of strings\<close>

fun join :: "string \<Rightarrow> string list \<Rightarrow> string" where
  "join sep [] = []"
| "join sep [x] = x"
| "join sep (x # y # ys) = x @ sep @ join sep (y # ys)"

text \<open>
  \<^verbatim>\<open>JSON.stringify(xs, null, 2)\<close> on an array of strings (ECMAScript's QuoteJSONString and
  SerializeJSONArray with the gap of two spaces). A \<open>char\<close> is a byte: bytes from 128 on
  (UTF-8 of a character outside ASCII) are copied.
\<close>

definition hexDigit :: "nat \<Rightarrow> char" where
  "hexDigit n = ''0123456789abcdef'' ! (n mod 16)"

definition quoteJSONChar :: "char \<Rightarrow> string" where
  "quoteJSONChar c =
     (if c = CHR 0x08 then [CHR 0x5C, CHR ''b'']
      else if c = CHR 0x09 then [CHR 0x5C, CHR ''t'']
      else if c = CHR 0x0A then [CHR 0x5C, CHR ''n'']
      else if c = CHR 0x0C then [CHR 0x5C, CHR ''f'']
      else if c = CHR 0x0D then [CHR 0x5C, CHR ''r'']
      else if c = CHR 0x22 then [CHR 0x5C, CHR 0x22]
      else if c = CHR 0x5C then [CHR 0x5C, CHR 0x5C]
      else if (of_char c :: nat) < 32
        then [CHR 0x5C, CHR ''u'', CHR ''0'', CHR ''0'',
              hexDigit (of_char c div 16), hexDigit (of_char c)]
      else [c])"

definition quoteJSONString :: "string \<Rightarrow> string" where
  "quoteJSONString s = CHR 0x22 # concat (map quoteJSONChar s) @ [CHR 0x22]"

definition JSON_stringify :: "string list \<Rightarrow> string" where
  "JSON_stringify xs =
     (if xs = [] then ''[]''
      else ''['' @ [CHR 0x0A] @ ''  ''
           @ join ('','' @ [CHR 0x0A] @ ''  '') (map quoteJSONString xs)
           @ [CHR 0x0A] @ '']'')"

subsection \<open>Grouping the CSV header: loadCSVPreviewDocs\<close>

text \<open>
  The first loop of \<^verbatim>\<open>loadCSVPreviewDocs\<close>, over \<^verbatim>\<open>result.headerFields.entries()\<close>. The
  helper \<^verbatim>\<open>csvHeaderNameToFieldName\<close> (csv/csv-utils) is not among the sources; it is the
  parameter \<open>toFieldName\<close>. \<^verbatim>\<open>if (fieldMap[uniqueName])\<close> is true for an own property (an
  array) and for an inherited one; for the latter \<^verbatim>\<open>fieldMap[uniqueName].push\<close> is
  \<^verbatim>\<open>undefined\<close> and calling it throws.
\<close>

fun groupHeaderFields ::
  "(string \<Rightarrow> string) \<Rightarrow> (nat \<times> string) list \<Rightarrow> (string \<times> nat list) list \<Rightarrow> FieldType list
     \<Rightarrow> Error + ((string \<times> nat list) list \<times> FieldType list)" where
  "groupHeaderFields toFieldName [] fieldMap fs = Inr (fieldMap, fs)"
| "groupHeaderFields toFieldName ((index, name) # entries) fieldMap fs =
     (let uniqueName = toFieldName name in
      case getProperty fieldMap uniqueName of
        Own indexes \<Rightarrow>
          groupHeaderFields toFieldName entries
            (AList.update uniqueName (indexes @ [index]) fieldMap) fs
      | Inherited \<Rightarrow> Inl (TypeError ''fieldMap[uniqueName].push is not a function'')
      | Missing \<Rightarrow>
          groupHeaderFields toFieldName entries
            (setProperty uniqueName [index] fieldMap)
            (fs @ [\<lparr> path = uniqueName,
                     checked = True,
                     isArray = Some (endsWith uniqueName ''[]''),
                     type = Some ''mixed'',
                     result = None \<rparr>]))"

text \<open>\<^verbatim>\<open>row[index]\<close>: \<^verbatim>\<open>undefined\<close> past the end of the row.\<close>

definition at :: "'a list \<Rightarrow> nat \<Rightarrow> 'a option" where
  "at row index = (if index < length row then Some (row ! index) else None)"

text \<open>
  The preview cell of one field in one row. \<^verbatim>\<open>value.length\<close> throws for a cell that is
  \<^verbatim>\<open>undefined\<close>. The first loop makes an own property of \<^verbatim>\<open>fieldMap\<close> for the path of every
  field it makes, so the last two cases are written for totality only (they do not
  arise, see \<open>groupHeaderFields_own\<close>).
\<close>

definition previewCell :: "(string \<times> nat list) list \<Rightarrow> string list \<Rightarrow> FieldType \<Rightarrow> Error + cell" where
  "previewCell fieldMap row field =
     (case getProperty fieldMap (path field) of
        Own indexes \<Rightarrow>
          if length indexes = 1 then Inr (at row (indexes ! 0))
          else
            let cells = map (at row) indexes in
            if None \<in> set cells
            then Inl (TypeError ''Cannot read properties of undefined (reading length)'')
            else
              let cellValues = filter (\<lambda>value. length value > 0) (map the cells);
                  previewText = (if isArray field = Some True
                                 then JSON_stringify cellValues
                                 else join '', '' cellValues)
              in Inr (Some previewText)
      | Inherited \<Rightarrow> Inl (TypeError ''fieldMap[field.path] is not an array'')
      | Missing \<Rightarrow> Inl (TypeError ''Cannot read properties of undefined (reading length)''))"

text \<open>The inner loop over the fields, and the outer loop over \<^verbatim>\<open>result.preview\<close>.\<close>

fun previewRow :: "(string \<times> nat list) list \<Rightarrow> string list \<Rightarrow> FieldType list \<Rightarrow> Error + cell list" where
  "previewRow fieldMap row [] = Inr []"
| "previewRow fieldMap row (field # fs) =
     (case previewCell fieldMap row field of
        Inl err \<Rightarrow> Inl err
      | Inr c \<Rightarrow>
          (case previewRow fieldMap row fs of
             Inl err \<Rightarrow> Inl err
           | Inr cs \<Rightarrow> Inr (c # cs)))"

fun previewRows :: "(string \<times> nat list) list \<Rightarrow> FieldType list \<Rightarrow> string list list \<Rightarrow> Error + cell list list" where
  "previewRows fieldMap fs [] = Inr []"
| "previewRows fieldMap fs (row # rows) =
     (case previewRow fieldMap row fs of
        Inl err \<Rightarrow> Inl err
      | Inr transformed \<Rightarrow>
          (case previewRows fieldMap fs rows of
             Inl err \<Rightarrow> Inl err
           | Inr vs \<Rightarrow> Inr (transformed # vs)))"

text \<open>
  What \<^verbatim>\<open>loadCSVPreviewDocs\<close> computes from the result of \<^verbatim>\<open>listCSVFields\<close> before it calls
  \<^verbatim>\<open>loadTypes\<close>: the fields and the preview grid, or the error it catches.
\<close>

definition groupCSVPreview ::
  "(string \<Rightarrow> string) \<Rightarrow> string list \<Rightarrow> string list list \<Rightarrow> Error + (FieldType list \<times> cell list list)" where
  "groupCSVPreview toFieldName headerFields preview =
     (case groupHeaderFields toFieldName (enumerate 0 headerFields) [] [] of
        Inl err \<Rightarrow> Inl err
      | Inr (fieldMap, fs) \<Rightarrow>
          (case previewRows fieldMap fs preview of
             Inl err \<Rightarrow> Inl err
           | Inr vs \<Rightarrow> Inr (fs, vs)))"

text \<open>
  Modelled from the spec: \<^verbatim>\<open>csvHeaderNameToFieldName\<close> (csv/csv-utils) is not among the
  sources. The spec's array-grouping normalization turns \<^verbatim>\<open>tags[0]\<close>, \<^verbatim>\<open>tags[1]\<close> into \<^verbatim>\<open>tags[]\<close>:
  every bracketed run of digits loses its digits (the scan keeps, in its first argument,
  the digits read since an opening bracket). It is used for examples only; the theorems
  hold for every \<open>toFieldName\<close>.
\<close>

fun toFieldNameFrom :: "string option \<Rightarrow> string \<Rightarrow> string" where
  "toFieldNameFrom None [] = []"
| "toFieldNameFrom None (c # cs) =
     (if c = CHR ''['' then toFieldNameFrom (Some []) cs else c # toFieldNameFrom None cs)"
| "toFieldNameFrom (Some digits) [] = CHR ''['' # digits"
| "toFieldNameFrom (Some digits) (c # cs) =
     (if c \<in> set ''0123456789'' then toFieldNameFrom (Some (digits @ [c])) cs
      else if c = CHR '']'' \<and> digits \<noteq> [] then ''[]'' @ toFieldNameFrom None cs
      else if c = CHR ''['' then CHR ''['' # digits @ toFieldNameFrom (Some []) cs
      else CHR ''['' # digits @ c # toFieldNameFrom None cs)"

definition csvHeaderNameToFieldName :: "string \<Rightarrow> string" where
  "csvHeaderNameToFieldName name = toFieldNameFrom None name"

subsection \<open>The store and the thunks\<close>

text \<open>
  What a thunk reads and writes: the \<^verbatim>\<open>importData\<close> slice of the store, the flags of the
  abort controllers, the identity the next \<^verbatim>\<open>new AbortController()\<close> gets, the calls of
  \<^verbatim>\<open>analyzeCSVFields\<close> that have not settled yet (each named by the controller whose signal
  it was given), and what was done so far, in order.
\<close>

record ImportCSVOptions =
  csv_dataService :: nat
  csv_ns :: string
  csv_input :: string
  csv_output :: "string option"
  csv_delimiter :: "CSVDelimiter option"
  csv_fields :: "(string \<times> CSVParsableFieldType option) list"
  csv_abortSignal :: AbortController
  csv_stopOnErrors :: bool
  csv_ignoreEmptyStrings :: bool

record ImportJSONOptions =
  json_dataService :: nat
  json_ns :: string
  json_input :: string
  json_output :: "string option"
  json_abortSignal :: AbortController
  json_stopOnErrors :: bool
  json_jsonVariant :: string

text \<open>The telemetry event \<^verbatim>\<open>Import Completed\<close> (without its duration).\<close>

record TrackPayload =
  t_delimiter :: "CSVDelimiter option"
  t_file_type :: string
  t_all_fields :: bool
  t_stop_on_error_selected :: bool
  t_number_of_docs :: nat
  t_success :: bool
  t_aborted :: "bool option"
  t_ignore_empty_strings :: "bool option"

text \<open>The payload of the \<^verbatim>\<open>import-finished\<close> event.\<close>

record FinishedPayload =
  p_ns :: string
  p_size :: nat
  p_fileType :: string
  p_docsWritten :: nat
  p_fileIsMultilineJSON :: bool
  p_delimiter :: "CSVDelimiter option"
  p_ignoreBlanks :: bool
  p_stopOnErrors :: bool
  p_hasExcluded :: bool
  p_hasTransformed :: bool

datatype Effect =
    Dispatched AnyAction
  | Tracked TrackPayload
  | TrackedImportOpened
  | ShowStartingToast string
  | ShowInProgressToast nat string nat nat
  | ShowFailedToast Error
  | ShowCancelledToast "Error list" "string option"
  | ShowCompletedWithErrorsToast nat "Error list" nat "string option"
  | ShowCompletedToast nat
  | CalledImportCSV ImportCSVOptions
  | CalledImportJSON ImportJSONOptions
  | CalledAnalyzeCSVFields string "CSVDelimiter option" AbortController bool
  | ProgressFlush
  | ClosedErrorLog string
  | EmittedImportFinished FinishedPayload

record World =
  importData :: State
  signals :: Signals
  nextController :: AbortController
  analyses :: "AbortController list"
  effects :: "Effect list"

text \<open>\<^verbatim>\<open>dispatch(action)\<close>: the reducer runs on the slice.\<close>

definition dispatch :: "AnyAction \<Rightarrow> World \<Rightarrow> World" where
  "dispatch action w =
     (case reducer (signals w) (importData w) action of
        (sg, state) \<Rightarrow>
          w\<lparr> importData := state, signals := sg, effects := effects w @ [Dispatched action] \<rparr>)"

definition effect :: "Effect \<Rightarrow> World \<Rightarrow> World" where
  "effect e w = w\<lparr> effects := effects w @ [e] \<rparr>"

text \<open>\<^verbatim>\<open>controller.abort()\<close> from a thunk.\<close>

definition abortNow :: "AbortController \<Rightarrow> World \<Rightarrow> World" where
  "abortNow c w = w\<lparr> signals := insert c (signals w) \<rparr>"

text \<open>\<^verbatim>\<open>new AbortController()\<close>\<close>

definition newAbortController :: "World \<Rightarrow> AbortController \<times> World" where
  "newAbortController w = (nextController w, w\<lparr> nextController := Suc (nextController w) \<rparr>)"

definition cancelImport :: "World \<Rightarrow> World" where
  "cancelImport w =
     (let abortController' = abortController (importData w);
          analyzeAbortController' = analyzeAbortController (importData w);
          w1 = (case analyzeAbortController' of
                  Some c \<Rightarrow> dispatch ANALYZE_CANCELLED (abortNow c w)
                | None \<Rightarrow> w)
      in case abortController' of
           Some c \<Rightarrow> dispatch CANCELED (abortNow c w1)
         | None \<Rightarrow> w1)"

definition skipCSVAnalyze :: "World \<Rightarrow> World" where
  "skipCSVAnalyze w =
     (case analyzeAbortController (importData w) of
        Some c \<Rightarrow> dispatch ANALYZE_CANCELLED (abortNow c w)
      | None \<Rightarrow> w)"

text \<open>
  \<^verbatim>\<open>openImport\<close>. \<^verbatim>\<open>nsChanged(namespace)\<close> is an action of another slice (\<^verbatim>\<open>modules/compass\<close>).
\<close>

definition openImport :: "string \<Rightarrow> World \<Rightarrow> World" where
  "openImport namespace w =
     (if status (importData w) = PS_STARTED
      then dispatch OPEN_IN_PROGRESS_MESSAGE w
      else dispatch OPEN (dispatch (OTHER ''nsChanged'') (effect TrackedImportOpened w)))"

subsection \<open>loadTypes\<close>

text \<open>
  \<^verbatim>\<open>loadTypes\<close> has two \<^verbatim>\<open>await\<close>s, so it runs in three segments. The first runs to
  \<^verbatim>\<open>await getFileStats(fileName)\<close>: it reads the state, aborts the analysis the state
  knows of, and makes the new controller. What it keeps for the later segments are its
  local variables.
\<close>

record LoadTypesLocals =
  lt_fileName :: string
  lt_delimiter :: "CSVDelimiter option"
  lt_ignoreBlanks :: bool
  lt_abortController :: AbortController

definition loadTypes_begin :: "World \<Rightarrow> LoadTypesLocals \<times> World" where
  "loadTypes_begin w =
     (let state = importData w;
          w1 = (case analyzeAbortController state of
                  Some c \<Rightarrow> skipCSVAnalyze (abortNow c w)
                | None \<Rightarrow> w);
          (abortController', w2) = newAbortController w1
      in (\<lparr> lt_fileName = fileName state,
            lt_delimiter = delimiter state,
            lt_ignoreBlanks = ignoreBlanks state,
            lt_abortController = abortController' \<rparr>, w2))"

text \<open>
  The second segment runs when \<^verbatim>\<open>getFileStats\<close> has settled, to \<^verbatim>\<open>await analyzeCSVFields\<close>.
  A rejection of \<^verbatim>\<open>getFileStats\<close> leaves \<^verbatim>\<open>loadTypes\<close> and is caught by its caller
  \<^verbatim>\<open>loadCSVPreviewDocs\<close>, which dispatches \<open>ANALYZE_FAILED\<close>.
\<close>

definition loadTypes_stats :: "LoadTypesLocals \<Rightarrow> Error + nat option \<Rightarrow> World \<Rightarrow> World" where
  "loadTypes_stats l fileStats' w =
     (case fileStats' of
        Inl err \<Rightarrow> dispatch (ANALYZE_FAILED err) w
      | Inr stats \<Rightarrow>
          (let fileSize = (case stats of Some size' \<Rightarrow> size' | None \<Rightarrow> 0);
               w1 = dispatch (ANALYZE_STARTED (lt_abortController l) fileSize) w;
               w2 = effect (CalledAnalyzeCSVFields (lt_fileName l) (lt_delimiter l)
                              (lt_abortController l) (lt_ignoreBlanks l)) w1
           in w2\<lparr> analyses := analyses w2 @ [lt_abortController l] \<rparr>))"

text \<open>
  The loop that writes the detected types into the fields. \<^verbatim>\<open>result.fields[path]\<close> is
  \<^verbatim>\<open>undefined\<close> for a path without entry, and reading \<^verbatim>\<open>detected\<close> of it throws. (For a
  path in \<open>objectPrototypeNames\<close> the inherited value is read instead, which has no
  \<^verbatim>\<open>detected\<close>; no field that \<open>groupHeaderFields\<close> makes has such a path.)
\<close>

fun setDetectedTypes :: "AnalyzeCSVFieldsResult \<Rightarrow> FieldType list \<Rightarrow> Error + FieldType list" where
  "setDetectedTypes result' [] = Inr []"
| "setDetectedTypes result' (csvField # fs) =
     (case getProperty (ar_fields result') (path csvField) of
        Missing \<Rightarrow> Inl (TypeError ''Cannot read properties of undefined (reading detected)'')
      | Inherited \<Rightarrow>
          (case setDetectedTypes result' fs of
             Inl err \<Rightarrow> Inl err
           | Inr fs' \<Rightarrow> Inr (csvField\<lparr> type := None, result := None \<rparr> # fs'))
      | Own r \<Rightarrow>
          (case setDetectedTypes result' fs of
             Inl err \<Rightarrow> Inl err
           | Inr fs' \<Rightarrow> Inr (csvField\<lparr> type := Some (detected r), result := Some r \<rparr> # fs')))"

text \<open>
  The third segment runs when the call of \<^verbatim>\<open>analyzeCSVFields\<close> made by this \<^verbatim>\<open>loadTypes\<close> has
  settled (an aborted analysis resolves as well, with what it has seen so far).
\<close>

definition loadTypes_settle ::
  "LoadTypesLocals \<Rightarrow> FieldType list \<Rightarrow> cell list list \<Rightarrow> Error + AnalyzeCSVFieldsResult \<Rightarrow> World \<Rightarrow> World" where
  "loadTypes_settle l fs vs outcome w =
     (let w1 = w\<lparr> analyses := remove1 (lt_abortController l) (analyses w) \<rparr>
      in case outcome of
           Inl err \<Rightarrow> dispatch (ANALYZE_FAILED err) w1
         | Inr result' \<Rightarrow>
             (case setDetectedTypes result' fs of
                Inl err \<Rightarrow> dispatch (ANALYZE_FAILED err) w1
              | Inr fs' \<Rightarrow> dispatch (ANALYZE_FINISHED result') (dispatch (SET_PREVIEW fs' vs) w1)))"

subsection \<open>startImport\<close>

text \<open>
  What \<^verbatim>\<open>startImport\<close> gets from the file system: \<^verbatim>\<open>getUserDataFolderPath()\<close>, \<^verbatim>\<open>path.join\<close>,
  \<^verbatim>\<open>path.basename\<close>, whether \<^verbatim>\<open>fs.promises.mkdir\<close> rejects and whether \<^verbatim>\<open>fs.createWriteStream\<close>
  throws (\<open>Some\<close> the error).
\<close>

record Env =
  userDataPath :: string
  pathJoin :: "string \<Rightarrow> string \<Rightarrow> string"
  pathBasename :: "string \<Rightarrow> string"
  mkdir :: "string \<Rightarrow> Error option"
  createWriteStream :: "string \<Rightarrow> Error option"

definition getErrorLogPath :: "Env \<Rightarrow> string \<Rightarrow> Error + string" where
  "getErrorLogPath env fileName' =
     (let importErrorLogsPath = pathJoin env (userDataPath env) ''ImportErrorLogs'' in
      case mkdir env importErrorLogsPath of
        Some err \<Rightarrow> Inl err
      | None \<Rightarrow>
          (let errorLogFileName = ''import-'' @ pathBasename env fileName' @ ''.log''
           in Inr (pathJoin env importErrorLogsPath errorLogFileName)))"

text \<open>
  The loop that builds \<^verbatim>\<open>fields\<close> from \<^verbatim>\<open>transform\<close> and \<^verbatim>\<open>exclude\<close>
  (\<^verbatim>\<open>exclude.includes(name)\<close> skips the entry).
\<close>

definition importFields ::
  "(string \<times> CSVParsableFieldType option) list \<Rightarrow> string list
     \<Rightarrow> (string \<times> CSVParsableFieldType option) list" where
  "importFields transform' exclude' =
     fold (\<lambda>(name, type') fs. if name \<in> set exclude' then fs else setProperty name type' fs)
       transform' []"

text \<open>
  The local variables of one call of \<^verbatim>\<open>startImport\<close>. \<open>si_state\<close> is the \<^verbatim>\<open>importData\<close> it read
  at its start; \<open>si_errorLogWriteStream\<close> names the stream by its path; \<open>si_pending\<close> are
  the arguments that the throttled \<^verbatim>\<open>progressCallback\<close> keeps for its trailing call.
\<close>

record ImportLocals =
  si_ns :: string
  si_dataService :: nat
  si_state :: State
  si_ignoreBlanks :: bool
  si_fileSize :: nat
  si_fields :: "(string \<times> CSVParsableFieldType option) list"
  si_errors :: "Error list"
  si_errorLogFilePath :: "string option"
  si_errorLogWriteStream :: "string option"
  si_abortController :: AbortController
  si_pending :: "(nat \<times> nat) option"

text \<open>The \<^verbatim>\<open>try\<close> block that makes the error log, with its \<^verbatim>\<open>catch\<close>.\<close>

definition unableToCreate :: "Error \<Rightarrow> Error" where
  "unableToCreate err = err\<lparr> message := ''unable to create import error log file: '' @ message err \<rparr>"

definition createErrorLog :: "Env \<Rightarrow> string \<Rightarrow> string option \<times> string option \<times> Error list" where
  "createErrorLog env fileName' =
     (case getErrorLogPath env fileName' of
        Inl err \<Rightarrow> (None, None, [unableToCreate err])
      | Inr errorLogFilePath' \<Rightarrow>
          if errorLogFilePath' \<noteq> []
          then (case createWriteStream env errorLogFilePath' of
                  Some err \<Rightarrow> (Some errorLogFilePath', None, [unableToCreate err])
                | None \<Rightarrow> (Some errorLogFilePath', Some errorLogFilePath', []))
          else (Some errorLogFilePath', None, []))"

text \<open>The call of \<^verbatim>\<open>importCSV\<close> or \<^verbatim>\<open>importJSON\<close>.\<close>

definition importerCall :: "ImportLocals \<Rightarrow> Effect" where
  "importerCall l =
     (if fileType (si_state l) = ''csv''
      then CalledImportCSV \<lparr>
             csv_dataService = si_dataService l,
             csv_ns = si_ns l,
             csv_input = fileName (si_state l),
             csv_output = si_errorLogWriteStream l,
             csv_delimiter = delimiter (si_state l),
             csv_fields = si_fields l,
             csv_abortSignal = si_abortController l,
             csv_stopOnErrors = stopOnErrors (si_state l),
             csv_ignoreEmptyStrings = si_ignoreBlanks l \<rparr>
      else CalledImportJSON \<lparr>
             json_dataService = si_dataService l,
             json_ns = si_ns l,
             json_input = fileName (si_state l),
             json_output = si_errorLogWriteStream l,
             json_abortSignal = si_abortController l,
             json_stopOnErrors = stopOnErrors (si_state l),
             json_jsonVariant = (if fileIsMultilineJSON (si_state l) then ''jsonl'' else ''json'') \<rparr>)"

text \<open>
  From the start to \<^verbatim>\<open>await promise\<close>. \<open>ns\<close> and \<open>dataService'\<close> are the other two slices
  of the store that it reads. The state is read once, at the start. Inside the \<^verbatim>\<open>try\<close> block
  the thunk waits at \<^verbatim>\<open>await getErrorLogPath(fileName)\<close>: \<open>arriving\<close> are the actions that
  reach the store during that wait, before \<^verbatim>\<open>new AbortController()\<close> and the dispatch of
  \<open>STARTED\<close>, which the reducer applies to the state as it is by then.
\<close>

definition startImport_begin ::
  "string \<Rightarrow> nat \<Rightarrow> Env \<Rightarrow> AnyAction list \<Rightarrow> World \<Rightarrow> ImportLocals \<times> World" where
  "startImport_begin ns dataService' env arriving w =
     (let state = importData w;
          ignoreBlanks' = (ignoreBlanks state \<and> fileType state = FILE_TYPES_CSV);
          fileSize = (case fileStats state of Some size' \<Rightarrow> size' | None \<Rightarrow> 0);
          fs = importFields (transform state) (exclude state);
          (errorLogFilePath', errorLogWriteStream, errors') = createErrorLog env (fileName state);
          w0 = fold dispatch arriving w;
          (abortController', w1) = newAbortController w0;
          w2 = dispatch (onStarted abortController'
                 (case errorLogFilePath' of Some p \<Rightarrow> p | None \<Rightarrow> [])) w1;
          w3 = effect (ShowStartingToast (fileName state)) w2;
          l = \<lparr> si_ns = ns,
                si_dataService = dataService',
                si_state = state,
                si_ignoreBlanks = ignoreBlanks',
                si_fileSize = fileSize,
                si_fields = fs,
                si_errors = errors',
                si_errorLogFilePath = errorLogFilePath',
                si_errorLogWriteStream = errorLogWriteStream,
                si_abortController = abortController',
                si_pending = None \<rparr>
      in (l, effect (importerCall l) w3))"

text \<open>\<^verbatim>\<open>errorCallback\<close>, on the \<^verbatim>\<open>errors\<close> array of the call.\<close>

definition errorCallback :: "Error \<Rightarrow> Error list \<Rightarrow> Error list" where
  "errorCallback err errors' = (if length errors' < 5 then errors' @ [err] else errors')"

text \<open>The function that \<^verbatim>\<open>_.throttle\<close> wraps: it shows the progress toast.\<close>

definition showProgress :: "ImportLocals \<Rightarrow> nat \<times> nat \<Rightarrow> World \<Rightarrow> World" where
  "showProgress l args w =
     effect (ShowInProgressToast (fst args) (fileName (si_state l)) (snd args) (si_fileSize l)) w"

text \<open>
  What happens while the importer runs. The importers are not among the sources: a run
  is any sequence of these events. The importer reports an error (\<^verbatim>\<open>errorCallback(err)\<close>)
  or its progress (\<^verbatim>\<open>progressCallback({docsWritten, bytesProcessed})\<close>); the timer of the
  throttle fires; the user cancels from the toast (\<^verbatim>\<open>dispatch(cancelImport())\<close>); some
  other action reaches the store.

  \<^verbatim>\<open>_.throttle(f, 1000)\<close> is lodash's: a call either invokes \<^verbatim>\<open>f\<close> at once or keeps its
  arguments, replacing the ones kept before, for the call that the timer makes later.
  Which of the two depends on the clock; here the event says it (\<open>True\<close>: at once).
  \<^verbatim>\<open>flush()\<close> makes the trailing call at once, if arguments are kept.
\<close>

datatype RunEvent =
    ErrorReported Error
  | ProgressReported nat nat bool
  | ThrottleTimer
  | UserCancelled
  | Outside AnyAction

definition throttleFlush :: "ImportLocals \<times> World \<Rightarrow> ImportLocals \<times> World" where
  "throttleFlush lw =
     (case si_pending (fst lw) of
        None \<Rightarrow> lw
      | Some args \<Rightarrow> ((fst lw)\<lparr> si_pending := None \<rparr>, showProgress (fst lw) args (snd lw)))"

fun runEvent :: "RunEvent \<Rightarrow> ImportLocals \<times> World \<Rightarrow> ImportLocals \<times> World" where
  "runEvent (ErrorReported err) (l, w) = (l\<lparr> si_errors := errorCallback err (si_errors l) \<rparr>, w)"
| "runEvent (ProgressReported docsWritten' bytesProcessed atOnce) (l, w) =
     (if atOnce
      then (l\<lparr> si_pending := None \<rparr>, showProgress l (docsWritten', bytesProcessed) w)
      else (l\<lparr> si_pending := Some (docsWritten', bytesProcessed) \<rparr>, w))"
| "runEvent ThrottleTimer (l, w) = throttleFlush (l, w)"
| "runEvent UserCancelled (l, w) = (l, cancelImport w)"
| "runEvent (Outside action) (l, w) = (l, dispatch action w)"

definition runEvents :: "RunEvent list \<Rightarrow> ImportLocals \<times> World \<Rightarrow> ImportLocals \<times> World" where
  "runEvents events lw = fold runEvent events lw"

text \<open>How the promise of the importer settles, and how the thunk ends.\<close>

datatype ImportOutcome = Resolved ImportResult | Rejected Error

datatype Completion = Returned | ReturnedAction AnyAction | Threw Error

text \<open>\<^verbatim>\<open>errorLogWriteStream?.close()\<close> of the \<^verbatim>\<open>finally\<close> block.\<close>

definition closeErrorLog :: "ImportLocals \<Rightarrow> World \<Rightarrow> World" where
  "closeErrorLog l w =
     (case si_errorLogWriteStream l of Some p \<Rightarrow> effect (ClosedErrorLog p) w | None \<Rightarrow> w)"

definition trackPayload :: "ImportLocals \<Rightarrow> nat \<Rightarrow> bool \<Rightarrow> bool option \<Rightarrow> TrackPayload" where
  "trackPayload l number_of_docs success aborted' =
     \<lparr> t_delimiter =
         (if fileType (si_state l) = ''csv''
          then Some (case delimiter (si_state l) of Some d \<Rightarrow> d | None \<Rightarrow> Comma)
          else None),
       t_file_type = fileType (si_state l),
       t_all_fields = (length (exclude (si_state l)) = 0),
       t_stop_on_error_selected = stopOnErrors (si_state l),
       t_number_of_docs = number_of_docs,
       t_success = success,
       t_aborted = aborted',
       t_ignore_empty_strings =
         (if fileType (si_state l) = ''csv'' then Some (si_ignoreBlanks l) else None) \<rparr>"

definition finishedPayload :: "ImportLocals \<Rightarrow> ImportResult \<Rightarrow> FinishedPayload" where
  "finishedPayload l result' =
     \<lparr> p_ns = si_ns l,
       p_size = si_fileSize l,
       p_fileType = fileType (si_state l),
       p_docsWritten = docsWritten result',
       p_fileIsMultilineJSON = fileIsMultilineJSON (si_state l),
       p_delimiter = delimiter (si_state l),
       p_ignoreBlanks = si_ignoreBlanks l,
       p_stopOnErrors = stopOnErrors (si_state l),
       p_hasExcluded = (length (exclude (si_state l)) > 0),
       p_hasTransformed = (length (transform (si_state l)) > 0) \<rparr>"

text \<open>
  The second segment: from the settling of the importer's promise to the end.
  \<open>currentDataService\<close> is \<^verbatim>\<open>getState().dataService.dataService\<close> at that time. In the
  \<^verbatim>\<open>catch\<close> block, \<^verbatim>\<open>err.result.docsWritten\<close> throws for an error without \<^verbatim>\<open>result\<close>; the
  \<^verbatim>\<open>finally\<close> block runs on every path.
\<close>

definition startImport_settle ::
  "ImportOutcome \<Rightarrow> nat option \<Rightarrow> ImportLocals \<times> World \<Rightarrow> Completion \<times> World" where
  "startImport_settle outcome currentDataService lw =
     (case outcome of
        Resolved result' \<Rightarrow>
          (let (l, w1) = throttleFlush (fst lw, effect ProgressFlush (snd lw));
               w2 = closeErrorLog l w1;
               w3 = effect (Tracked (trackPayload l (docsWritten result') True (aborted result'))) w2;
               w4 = (if aborted result' = Some True
                     then effect (ShowCancelledToast (si_errors l) (si_errorLogFilePath l)) w3
                     else if length (si_errors l) > 0
                     then effect (ShowCompletedWithErrorsToast (docsWritten result') (si_errors l)
                                    (docsProcessed result') (si_errorLogFilePath l)) w3
                     else effect (ShowCompletedToast (docsWritten result')) w3);
               w5 = dispatch (onFinished (aborted result' = Some True) (si_errors l)) w4;
               w6 = (if Some (si_dataService l) = currentDataService
                     then effect (EmittedImportFinished (finishedPayload l result')) w5
                     else w5)
           in (Returned, w6))
      | Rejected err \<Rightarrow>
          (let l = fst lw; w = snd lw in
           case err_result err of
             None \<Rightarrow>
               (Threw (TypeError ''Cannot read properties of undefined (reading docsWritten)''),
                closeErrorLog l w)
           | Some result' \<Rightarrow>
               (let w1 = effect (Tracked (trackPayload l (docsWritten result') False
                                   (Some (si_abortController l \<in> signals w)))) w;
                    w2 = effect (ShowFailedToast err) w1;
                    w3 = dispatch (onFailed err) w2
                in (ReturnedAction (onFailed err), closeErrorLog l w3))))"

text \<open>One whole call of \<^verbatim>\<open>startImport\<close>.\<close>

definition startImport ::
  "string \<Rightarrow> nat \<Rightarrow> Env \<Rightarrow> AnyAction list \<Rightarrow> RunEvent list \<Rightarrow> ImportOutcome \<Rightarrow> nat option
     \<Rightarrow> World \<Rightarrow> Completion \<times> World" where
  "startImport ns dataService' env arriving events outcome currentDataService w =
     startImport_settle outcome currentDataService
       (runEvents events (startImport_begin ns dataService' env arriving w))"

text \<open>
  Modelled from the spec: \<^verbatim>\<open>import/import-csv\<close> and \<^verbatim>\<open>import/import-json\<close> are not among the
  sources. By the spec the importer serializes every error it reports, one per line, to
  the error log it was given as \<^verbatim>\<open>output\<close> (and writes nothing without one). These are the
  lines of the log after a run.
\<close>

definition importerErrorLog :: "string option \<Rightarrow> RunEvent list \<Rightarrow> Error list" where
  "importerErrorLog output events =
     (case output of
        None \<Rightarrow> []
      | Some p \<Rightarrow> concat (map (\<lambda>ev. case ev of ErrorReported err \<Rightarrow> [err] | _ \<Rightarrow> []) events))"


definition importerOutput :: "Effect \<Rightarrow> string option" where
  "importerOutput call =
     (case call of
        CalledImportCSV opts \<Rightarrow> csv_output opts
      | CalledImportJSON opts \<Rightarrow> json_output opts
      | _ \<Rightarrow> None)"



section \<open>Notions used in the properties\<close>

text \<open>The actions among the effects, in order.\<close>

definition dispatched :: "Effect list \<Rightarrow> AnyAction list" where
  "dispatched es = concat (map (\<lambda>e. case e of Dispatched a \<Rightarrow> [a] | _ \<Rightarrow> []) es)"

text \<open>The terminal values of the status.\<close>

definition terminal :: "ProcessStatus \<Rightarrow> bool" where
  "terminal s = (s = PS_COMPLETED \<or> s = PS_CANCELED \<or> s = PS_FAILED)"

text \<open>The errors that the importer reports during a run, in order.\<close>

definition reportedErrors :: "RunEvent list \<Rightarrow> Error list" where
  "reportedErrors events = concat (map (\<lambda>ev. case ev of ErrorReported err \<Rightarrow> [err] | _ \<Rightarrow> []) events)"

text \<open>Two states that differ at most in \<^verbatim>\<open>ignoreBlanks\<close>, and two such stores.\<close>

definition sameButIgnoreBlanks :: "State \<Rightarrow> State \<Rightarrow> bool" where
  "sameButIgnoreBlanks s t = (s\<lparr> ignoreBlanks := True \<rparr> = t\<lparr> ignoreBlanks := True \<rparr>)"

definition sameButIgnoreBlanksW :: "World \<Rightarrow> World \<Rightarrow> bool" where
  "sameButIgnoreBlanksW v w =
     (sameButIgnoreBlanks (importData v) (importData w)
      \<and> signals v = signals w \<and> nextController v = nextController w
      \<and> analyses v = analyses w \<and> effects v = effects w)"

text \<open>Two sets of local variables that differ at most in the \<^verbatim>\<open>ignoreBlanks\<close> of the state read.\<close>

definition sameLocals :: "ImportLocals \<Rightarrow> ImportLocals \<Rightarrow> bool" where
  "sameLocals k l =
     (sameButIgnoreBlanks (si_state k) (si_state l) \<and> k\<lparr> si_state := si_state l \<rparr> = l)"

text \<open>
  The field lists that \<open>SET_PREVIEW\<close> is dispatched with come from \<^verbatim>\<open>loadCSVPreviewDocs\<close> and
  \<^verbatim>\<open>loadTypes\<close>: no two fields have the same path, every field has a type, and no path is
  a property name of \<^verbatim>\<open>Object.prototype\<close> (see \<open>groupCSVPreview_fields\<close> and
  \<open>setDetectedTypes_fields\<close> below).
\<close>

definition previewFields :: "FieldType list \<Rightarrow> bool" where
  "previewFields fs =
     (distinct (map path fs)
      \<and> list_all (\<lambda>field. type field \<noteq> None \<and> path field \<notin> set objectPrototypeNames) fs)"



text \<open>
  The grouping said in words, to compare the loops of \<^verbatim>\<open>loadCSVPreviewDocs\<close> with. The names
  of a header in the order of their first occurrence; the columns (indexes into the
  header) whose normalized name is a given one; the field made for a name.
\<close>

definition firstOccurrences :: "'a list \<Rightarrow> 'a list" where
  "firstOccurrences xs = rev (remdups (rev xs))"

definition columnsOf :: "(string \<Rightarrow> string) \<Rightarrow> string list \<Rightarrow> string \<Rightarrow> nat list" where
  "columnsOf toFieldName headerFields name =
     filter (\<lambda>i. toFieldName (headerFields ! i) = name) [0..<length headerFields]"

definition newField :: "string \<Rightarrow> FieldType" where
  "newField uniqueName =
     \<lparr> path = uniqueName, checked = True, isArray = Some (endsWith uniqueName ''[]''),
       type = Some ''mixed'', result = None \<rparr>"

definition groupsOf :: "(string \<Rightarrow> string) \<Rightarrow> string list \<Rightarrow> (string \<times> nat list) list" where
  "groupsOf toFieldName headerFields =
     map (\<lambda>name. (name, columnsOf toFieldName headerFields name))
       (firstOccurrences (map toFieldName headerFields))"

definition fieldsOf :: "(string \<Rightarrow> string) \<Rightarrow> string list \<Rightarrow> FieldType list" where
  "fieldsOf toFieldName headerFields =
     map newField (firstOccurrences (map toFieldName headerFields))"

text \<open>
  The preview cell of a field in a row that has a cell for every column: the cell of its
  one column as it is, or the non-empty cells of its columns, as a JSON array for an array
  field and joined by a comma and a space otherwise.
\<close>

definition groupedCell :: "(string \<Rightarrow> string) \<Rightarrow> string list \<Rightarrow> string list \<Rightarrow> FieldType \<Rightarrow> cell" where
  "groupedCell toFieldName headerFields row field =
     (let columns = columnsOf toFieldName headerFields (path field) in
      if length columns = 1 then Some (row ! (columns ! 0))
      else let cellValues = filter (\<lambda>value. value \<noteq> []) (map (\<lambda>i. row ! i) columns)
           in Some (if isArray field = Some True
                    then JSON_stringify cellValues
                    else join '', '' cellValues))"

text \<open>The progress that the importer reports during a run, in order.\<close>

definition progressReports :: "RunEvent list \<Rightarrow> (nat \<times> nat) list" where
  "progressReports events =
     concat (map (\<lambda>ev. case ev of ProgressReported d b atOnce \<Rightarrow> [(d, b)] | _ \<Rightarrow> []) events)"

text \<open>
  The call of the importer that \<^verbatim>\<open>startImport\<close> made: the last thing it did before it waits
  for the promise.
\<close>

definition importerCalled :: "ImportLocals \<times> World \<Rightarrow> Effect" where
  "importerCalled begun = last (effects (snd begun))"

text \<open>
  The events of a run that leave the abort controller of the session state as it is: all
  but the actions of another start, of an end, of a new file, of a reopened modal and of a
  lost connection.
\<close>

definition keepsHandle :: "RunEvent \<Rightarrow> bool" where
  "keepsHandle ev =
     (case ev of
        Outside action \<Rightarrow>
          (case action of
             FILE_SELECTED d f s m t \<Rightarrow> False
           | FAILED e \<Rightarrow> False
           | STARTED c p \<Rightarrow> False
           | FINISHED a es \<Rightarrow> False
           | OPEN \<Rightarrow> False
           | DATA_SERVICE_DISCONNECTED \<Rightarrow> False
           | _ \<Rightarrow> True)
      | _ \<Rightarrow> True)"

subsection \<open>Example inputs\<close>

text \<open>A file system on which the error log can be made, for the examples.\<close>

definition goodEnv :: Env where
  "goodEnv = \<lparr> userDataPath = ''/data'',
               pathJoin = (\<lambda>a b. a @ ''/'' @ b),
               pathBasename = (\<lambda>p. p),
               mkdir = (\<lambda>p. None),
               createWriteStream = (\<lambda>p. None) \<rparr>"

text \<open>A file system on which the directory of the error logs cannot be made.\<close>

definition noLogEnv :: Env where
  "noLogEnv = \<lparr> userDataPath = ''/data'',
                pathJoin = (\<lambda>a b. a @ ''/'' @ b),
                pathBasename = (\<lambda>p. p),
                mkdir = (\<lambda>p. Some \<lparr> message = ''EACCES'', err_result = None \<rparr>),
                createWriteStream = (\<lambda>p. None) \<rparr>"

text \<open>The store before anything happened, and after a JSON file and a CSV file was chosen.\<close>

definition world0 :: World where
  "world0 = \<lparr> importData = INITIAL_STATE, signals = {}, nextController = 0, analyses = [],
              effects = [] \<rparr>"

definition jsonWorld :: World where
  "jsonWorld = world0\<lparr> importData :=
     snd (reducer {} (INITIAL_STATE\<lparr> isOpen := True \<rparr>)
            (FILE_SELECTED None ''a.json'' (Some 100) False ''json'')) \<rparr>"

definition csvWorld :: World where
  "csvWorld = world0\<lparr> importData :=
     snd (reducer {} (INITIAL_STATE\<lparr> isOpen := True \<rparr>)
            (FILE_SELECTED (Some Comma) ''a.csv'' (Some 100) False ''csv'')) \<rparr>"

text \<open>Seven errors are reported: the first five are kept, all seven are in the log.\<close>

definition sevenErrors :: "RunEvent list" where
  "sevenErrors = map (\<lambda>m. ErrorReported \<lparr> message = m, err_result = None \<rparr>)
     [''e1'', ''e2'', ''e3'', ''e4'', ''e5'', ''e6'', ''e7'']"


text \<open>
  A CSV file is selected and \<^verbatim>\<open>loadTypes\<close> runs to its call of \<^verbatim>\<open>analyzeCSVFields\<close>; before
  that call settles, \<^verbatim>\<open>loadTypes\<close> runs again (the delimiter was changed).
\<close>

definition firstAnalysis :: World where
  "firstAnalysis =
     loadTypes_stats (fst (loadTypes_begin csvWorld)) (Inr (Some 100)) (snd (loadTypes_begin csvWorld))"

definition secondAnalysis :: World where
  "secondAnalysis =
     loadTypes_stats (fst (loadTypes_begin firstAnalysis)) (Inr (Some 100))
       (snd (loadTypes_begin firstAnalysis))"

text \<open>
  The same two calls of \<^verbatim>\<open>loadTypes\<close>, the second one starting while the first one waits
  for \<^verbatim>\<open>getFileStats\<close>.
\<close>

definition overlappingAnalyses :: World where
  "overlappingAnalyses =
     (let (l1, w1) = loadTypes_begin csvWorld;
          (l2, w2) = loadTypes_begin w1
      in loadTypes_stats l2 (Inr (Some 100)) (loadTypes_stats l1 (Inr (Some 100)) w2))"

section \<open>Properties\<close>

subsection \<open>Shared facts\<close>

lemma dispatched_append: "dispatched (xs @ ys) = dispatched xs @ dispatched ys"
  by (simp add: dispatched_def)

lemma throttleFlush_keeps:
  assumes "throttleFlush (l, w) = (l', w')"
  shows "si_errors l' = si_errors l"
    and "si_state l' = si_state l"
    and "si_errorLogWriteStream l' = si_errorLogWriteStream l"
    and "si_errorLogFilePath l' = si_errorLogFilePath l"
    and "si_dataService l' = si_dataService l"
    and "si_pending l' = None"
    and "importData w' = importData w"
    and "signals w' = signals w"
    and "dispatched (effects w') = dispatched (effects w)"
  using assms
  by (auto simp: throttleFlush_def showProgress_def effect_def dispatched_def split: option.splits)


lemma effects_dispatch: "effects (dispatch a w) = effects w @ [Dispatched a]"
  by (simp add: dispatch_def split_beta)

lemma importData_dispatch:
  "importData (dispatch a w) = snd (reducer (signals w) (importData w) a)"
  by (simp add: dispatch_def split_beta)


lemma nextController_dispatch: "nextController (dispatch a w) = nextController w"
  by (simp add: dispatch_def split_beta)

lemma effects_arriving: "effects (fold dispatch arriving w) = effects w @ map Dispatched arriving"
  by (induction arriving arbitrary: w) (simp_all add: effects_dispatch)

lemma nextController_arriving: "nextController (fold dispatch arriving w) = nextController w"
  by (induction arriving arbitrary: w) (simp_all add: nextController_dispatch)

lemma begin_state: "si_state (fst (startImport_begin ns ds env arriving w)) = importData w"
  by (simp add: startImport_begin_def Let_def split_beta)

lemma runEvent_state: "si_state (fst (runEvent ev lw)) = si_state (fst lw)"
  by (cases ev; cases lw) (simp_all add: throttleFlush_def split: option.splits)

lemma runEvents_state: "si_state (fst (runEvents events lw)) = si_state (fst lw)"
  unfolding runEvents_def
  by (induction events arbitrary: lw) (simp_all add: runEvent_state)

lemma begin_call:
  "importerCalled (startImport_begin ns ds env arriving w)
     = importerCall (fst (startImport_begin ns ds env arriving w))"
  by (simp add: importerCalled_def startImport_begin_def Let_def split_beta effect_def)


lemma importerCall_output: "importerOutput (importerCall l) = si_errorLogWriteStream l"
  by (simp add: importerCall_def importerOutput_def)

subsection \<open>C1: FINISHED and cancellation\<close>








text \<open>
  After the call of the importer the session state holds the controller whose signal the
  importer was given, and the importer's events, the timer, a cancellation and the actions
  that are not listed in \<open>keepsHandle\<close> leave it there.
\<close>

lemma begin_handle:
  "abortController (importData (snd (startImport_begin ns ds env arriving w)))
     = Some (si_abortController (fst (startImport_begin ns ds env arriving w)))"
  by (simp add: startImport_begin_def Let_def split_beta effect_def importData_dispatch
      onStarted_def)

lemma cancelImport_handle:
  "abortController (importData (cancelImport w)) = abortController (importData w)"
  by (simp add: cancelImport_def Let_def importData_dispatch abortNow_def split: option.splits)

lemma runEvent_handle:
  assumes "keepsHandle ev"
  shows "abortController (importData (snd (runEvent ev lw))) = abortController (importData (snd lw))"
proof (cases lw)
  case (Pair l w)
  show ?thesis
  proof (cases ev)
    case UserCancelled
    then show ?thesis using Pair by (simp add: cancelImport_handle)
  next
    case (Outside a)
    then show ?thesis
      using Pair assms by (cases a) (simp_all add: keepsHandle_def importData_dispatch Let_def)
  qed (simp_all add: Pair throttleFlush_def showProgress_def effect_def split: option.splits)
qed

lemma handle_held_in_run:
  assumes "\<forall>ev \<in> set events. keepsHandle ev"
  shows "abortController (importData (snd (runEvents events (startImport_begin ns ds env arriving w))))
           = Some (si_abortController (fst (startImport_begin ns ds env arriving w)))"
proof -
  have "abortController (importData (snd (runEvents events lw))) = abortController (importData (snd lw))"
    for lw
    using assms unfolding runEvents_def
    by (induction events arbitrary: lw) (simp_all add: runEvent_handle)
  then show ?thesis by (simp add: begin_handle)
qed

lemma runEvent_locals_controller:
  "si_abortController (fst (runEvent ev lw)) = si_abortController (fst lw)"
  by (cases ev; cases lw) (simp_all add: throttleFlush_def split: option.splits)



subsection \<open>C2: the error log cannot be made\<close>

text \<open>
  C2 as stated fails. The directory of the error logs cannot be made
  (\<^verbatim>\<open>getErrorLogPath\<close> rejects), and \<^verbatim>\<open>startImport\<close> goes on: the last thing its first segment
  does is to call \<^verbatim>\<open>importJSON\<close>, without an output stream, and when the importer resolves
  with three documents written the session is \<open>COMPLETED\<close>, the toast shows the three
  documents and the one error.
\<close>

theorem import_runs_without_error_log:
  "getErrorLogPath noLogEnv (fileName (importData jsonWorld))
     = Inl \<lparr> message = ''EACCES'', err_result = None \<rparr>
   \<and> last (effects (snd (startImport_begin ''db.c'' 7 noLogEnv [] jsonWorld)))
     = CalledImportJSON \<lparr> json_dataService = 7, json_ns = ''db.c'', json_input = ''a.json'',
         json_output = None, json_abortSignal = 0, json_stopOnErrors = False,
         json_jsonVariant = ''json'' \<rparr>
   \<and> status (importData (snd (startImport ''db.c'' 7 noLogEnv [] []
         (Resolved \<lparr> aborted = None, docsWritten = 3, docsProcessed = 3 \<rparr>) (Some 7) jsonWorld)))
     = PS_COMPLETED
   \<and> ShowCompletedWithErrorsToast 3
         [\<lparr> message = ''unable to create import error log file: EACCES'', err_result = None \<rparr>]
         3 None
       \<in> set (effects (snd (startImport ''db.c'' 7 noLogEnv [] []
         (Resolved \<lparr> aborted = None, docsWritten = 3, docsProcessed = 3 \<rparr>) (Some 7) jsonWorld)))"
  by (simp add: startImport_def startImport_settle_def runEvents_def throttleFlush_def
      startImport_begin_def jsonWorld_def world0_def INITIAL_STATE_def
      createErrorLog_def getErrorLogPath_def noLogEnv_def newAbortController_def dispatch_def
      onStarted_def onFinished_def effect_def Let_def importerCall_def closeErrorLog_def
      unableToCreate_def trackPayload_def finishedPayload_def)

text \<open>
  C2, amended. When making the error log fails (\<^verbatim>\<open>getErrorLogPath\<close> rejects, or
  \<^verbatim>\<open>fs.createWriteStream\<close> throws), \<^verbatim>\<open>startImport\<close> catches the error and keeps it, its message
  prefixed, as the one entry of the error list of the run; then it dispatches \<open>STARTED\<close>,
  shows the starting toast and calls the importer, without an output stream. The run is
  not aborted by the setup error. This holds whatever actions reach the store while the
  thunk waits for \<^verbatim>\<open>getErrorLogPath\<close>: they come before \<open>STARTED\<close> in what was done.
\<close>

theorem log_failure_is_kept_and_import_runs:
  assumes "getErrorLogPath env (fileName (importData w)) = Inl err
           \<or> (\<exists>p. getErrorLogPath env (fileName (importData w)) = Inr p \<and> p \<noteq> []
                   \<and> createWriteStream env p = Some err)"
  shows "(case startImport_begin ns ds env arriving w of
            (l, w') \<Rightarrow>
              si_errors l = [unableToCreate err]
              \<and> message (unableToCreate err) = ''unable to create import error log file: '' @ message err
              \<and> si_errorLogWriteStream l = None
              \<and> status (importData w') = PS_STARTED
              \<and> effects w' = effects w @ map Dispatched arriving @
                   [Dispatched (STARTED (nextController w)
                      (case si_errorLogFilePath l of Some p \<Rightarrow> p | None \<Rightarrow> [])),
                    ShowStartingToast (fileName (importData w)),
                    importerCall l]
              \<and> ((\<exists>opts. importerCall l = CalledImportCSV opts \<and> csv_output opts = None)
                 \<or> (\<exists>opts. importerCall l = CalledImportJSON opts \<and> json_output opts = None)))"
proof -
  have log: "\<exists>p. createErrorLog env (fileName (importData w)) = (p, None, [unableToCreate err])"
    using assms by (auto simp: createErrorLog_def)
  then obtain p where p: "createErrorLog env (fileName (importData w)) = (p, None, [unableToCreate err])"
    by blast
  show ?thesis
    using p
    by (simp add: startImport_begin_def Let_def newAbortController_def effects_dispatch
        importData_dispatch onStarted_def effect_def importerCall_def unableToCreate_def
        effects_arriving nextController_arriving)
qed

theorem log_failure_is_kept_and_import_runs_witness:
  "si_errors (fst (startImport_begin ''db.c'' 7 noLogEnv [] csvWorld))
     = [\<lparr> message = ''unable to create import error log file: EACCES'', err_result = None \<rparr>]
   \<and> status (importData (snd (startImport_begin ''db.c'' 7 noLogEnv [] csvWorld))) = PS_STARTED
   \<and> effects (snd (startImport_begin ''db.c'' 7 noLogEnv [] csvWorld)) =
       [Dispatched (STARTED 0 []), ShowStartingToast ''a.csv'',
        CalledImportCSV \<lparr> csv_dataService = 7, csv_ns = ''db.c'', csv_input = ''a.csv'',
          csv_output = None, csv_delimiter = Some Comma, csv_fields = [], csv_abortSignal = 0,
          csv_stopOnErrors = False, csv_ignoreEmptyStrings = True \<rparr>]"
proof -
  have h: "getErrorLogPath noLogEnv (fileName (importData csvWorld))
             = Inl \<lparr> message = ''EACCES'', err_result = None \<rparr>"
    by (simp add: getErrorLogPath_def noLogEnv_def)
  have l: "si_errorLogFilePath (fst (startImport_begin ''db.c'' 7 noLogEnv [] csvWorld)) = None"
      "si_fields (fst (startImport_begin ''db.c'' 7 noLogEnv [] csvWorld)) = []"
      "si_ignoreBlanks (fst (startImport_begin ''db.c'' 7 noLogEnv [] csvWorld)) = True"
      "si_dataService (fst (startImport_begin ''db.c'' 7 noLogEnv [] csvWorld)) = 7"
      "si_ns (fst (startImport_begin ''db.c'' 7 noLogEnv [] csvWorld)) = ''db.c''"
      "si_abortController (fst (startImport_begin ''db.c'' 7 noLogEnv [] csvWorld)) = 0"
      "si_state (fst (startImport_begin ''db.c'' 7 noLogEnv [] csvWorld)) = importData csvWorld"
    by (simp_all add: startImport_begin_def csvWorld_def world0_def INITIAL_STATE_def
        createErrorLog_def getErrorLogPath_def noLogEnv_def newAbortController_def Let_def
        importFields_def FILE_TYPES_CSV_def)
  show ?thesis
    using log_failure_is_kept_and_import_runs[where env = noLogEnv and w = csvWorld
        and ns = "''db.c''" and ds = 7 and arriving = "[]", OF disjI1, OF h] l
    by (simp add: split_beta unableToCreate_def importerCall_def csvWorld_def world0_def
        INITIAL_STATE_def)
qed

subsection \<open>C3: the fields handed to the importer\<close>





lemma proto_in_names: "''__proto__'' \<in> set objectPrototypeNames"
  by (simp add: objectPrototypeNames_def)










subsection \<open>C4: a new analysis while one is in flight\<close>

text \<open>
  C4 as stated fails. When the second \<open>ANALYZE_STARTED\<close> is dispatched, the first call of
  \<^verbatim>\<open>analyzeCSVFields\<close> was aborted but has not settled: nothing in \<^verbatim>\<open>loadTypes\<close> waits for it,
  and two analyses are in flight. When the second \<^verbatim>\<open>loadTypes\<close> starts before the first has
  dispatched its \<open>ANALYZE_STARTED\<close>, the state holds no controller yet: two analyses are in
  flight and none was aborted.
\<close>

theorem two_analyses_in_flight:
  "analyses firstAnalysis = [0]
   \<and> analyzeAbortController (importData firstAnalysis) = Some 0
   \<and> dispatched (effects secondAnalysis)
       = [ANALYZE_STARTED 0 100, ANALYZE_CANCELLED, ANALYZE_STARTED 1 100]
   \<and> analyses secondAnalysis = [0, 1]
   \<and> signals secondAnalysis = {0}
   \<and> dispatched (effects overlappingAnalyses) = [ANALYZE_STARTED 0 100, ANALYZE_STARTED 1 100]
   \<and> analyses overlappingAnalyses = [0, 1]
   \<and> signals overlappingAnalyses = {}"
  by (simp add: firstAnalysis_def secondAnalysis_def overlappingAnalyses_def loadTypes_begin_def
      loadTypes_stats_def csvWorld_def world0_def INITIAL_STATE_def newAbortController_def
      dispatch_def effect_def skipCSVAnalyze_def abortNow_def dispatched_def Let_def)

text \<open>
  C4, amended. \<^verbatim>\<open>loadTypes\<close> aborts the controller of the analysis that the state holds, if
  it holds one, and no other controller, and dispatches \<open>ANALYZE_CANCELLED\<close>, which clears
  the handle; after \<^verbatim>\<open>getFileStats\<close> it dispatches \<open>ANALYZE_STARTED\<close> with a new controller,
  which is not aborted, and calls \<^verbatim>\<open>analyzeCSVFields\<close>. It does not wait: the analyses that
  were in flight before are in flight after, next to the new one.
\<close>

theorem loadTypes_aborts_the_known_analysis:
  assumes "\<forall>a \<in> signals w \<union> set_option (analyzeAbortController (importData w)). a < nextController w"
  shows "(case loadTypes_begin w of
            (l, w1) \<Rightarrow>
              signals w1 = signals w \<union> set_option (analyzeAbortController (importData w))
              \<and> analyzeAbortController (importData w1) = None
              \<and> dispatched (effects w1)
                  = dispatched (effects w)
                    @ (if analyzeAbortController (importData w) = None then [] else [ANALYZE_CANCELLED])
              \<and> analyses w1 = analyses w
              \<and> lt_abortController l = nextController w
              \<and> lt_abortController l \<notin> signals w1
              \<and> analyzeAbortController (importData (loadTypes_stats l (Inr stats) w1))
                  = Some (lt_abortController l)
              \<and> analyzeStatus (importData (loadTypes_stats l (Inr stats) w1)) = PS_STARTED
              \<and> signals (loadTypes_stats l (Inr stats) w1) = signals w1
              \<and> analyses (loadTypes_stats l (Inr stats) w1) = analyses w @ [lt_abortController l]
              \<and> dispatched (effects (loadTypes_stats l (Inr stats) w1))
                  = dispatched (effects w1)
                    @ [ANALYZE_STARTED (lt_abortController l) (case stats of Some n \<Rightarrow> n | None \<Rightarrow> 0)])"
proof (cases "analyzeAbortController (importData w)")
  case None
  then show ?thesis
    using assms
    by (auto simp: loadTypes_begin_def loadTypes_stats_def newAbortController_def dispatch_def
        effect_def dispatched_def Let_def)
next
  case (Some c)
  then show ?thesis
    using assms
    by (auto simp: loadTypes_begin_def loadTypes_stats_def newAbortController_def dispatch_def
        effect_def dispatched_def Let_def skipCSVAnalyze_def abortNow_def)
qed

theorem loadTypes_aborts_the_known_analysis_witness:
  "signals (snd (loadTypes_begin firstAnalysis)) = {0}
   \<and> analyzeAbortController (importData (snd (loadTypes_begin firstAnalysis))) = None
   \<and> analyses (snd (loadTypes_begin firstAnalysis)) = [0]
   \<and> lt_abortController (fst (loadTypes_begin firstAnalysis)) = 1
   \<and> analyzeAbortController (importData secondAnalysis) = Some 1
   \<and> analyses secondAnalysis = [0, 1]"
proof -
  have w: "signals firstAnalysis = {}" "analyzeAbortController (importData firstAnalysis) = Some 0"
    "nextController firstAnalysis = 1" "analyses firstAnalysis = [0]"
    by (simp_all add: firstAnalysis_def loadTypes_begin_def loadTypes_stats_def csvWorld_def
        world0_def INITIAL_STATE_def newAbortController_def dispatch_def effect_def Let_def)
  have h: "\<forall>a \<in> signals firstAnalysis \<union> set_option (analyzeAbortController (importData firstAnalysis)).
             a < nextController firstAnalysis"
    by (simp add: w)
  show ?thesis
    using loadTypes_aborts_the_known_analysis[OF h, of "Some 100"]
    by (simp add: split_beta w secondAnalysis_def)
qed

subsection \<open>C5: the status after an action\<close>

text \<open>
  C5 as stated fails: a session that is \<open>COMPLETED\<close> goes back to \<open>UNSPECIFIED\<close> when the
  modal is opened again or a file is selected, and to \<open>STARTED\<close> with the next import.
\<close>

theorem terminal_status_regresses:
  "terminal (status (INITIAL_STATE\<lparr> status := PS_COMPLETED \<rparr>))
   \<and> status (snd (reducer {} (INITIAL_STATE\<lparr> status := PS_COMPLETED \<rparr>) OPEN)) = PS_UNSPECIFIED
   \<and> status (snd (reducer {} (INITIAL_STATE\<lparr> status := PS_COMPLETED \<rparr>)
               (FILE_SELECTED None ''b.json'' (Some 1) False ''json''))) = PS_UNSPECIFIED
   \<and> status (snd (reducer {} (INITIAL_STATE\<lparr> status := PS_COMPLETED \<rparr>) (STARTED 0 []))) = PS_STARTED"
  by (simp add: terminal_def INITIAL_STATE_def)

text \<open>
  C5, amended. The status after an action is decided by five actions, whatever it was
  before: \<open>FILE_SELECTED\<close> and \<open>OPEN\<close> reset it to \<open>UNSPECIFIED\<close>, \<open>STARTED\<close> sets \<open>STARTED\<close>,
  \<open>FAILED\<close> sets \<open>FAILED\<close>, \<open>FINISHED\<close> sets \<open>CANCELED\<close> or \<open>COMPLETED\<close>. Every other action leaves
  the status as it is, a terminal one included.
\<close>

theorem status_after_action:
  "status (snd (reducer sg st a)) =
     (case a of
        FILE_SELECTED d f s m t \<Rightarrow> PS_UNSPECIFIED
      | OPEN \<Rightarrow> PS_UNSPECIFIED
      | STARTED c p \<Rightarrow> PS_STARTED
      | FAILED e \<Rightarrow> PS_FAILED
      | FINISHED ab es \<Rightarrow> (if ab then PS_CANCELED else PS_COMPLETED)
      | _ \<Rightarrow> status st)"
  by (cases a) (simp_all add: INITIAL_STATE_def Let_def)

theorem status_after_action_witness:
  "terminal (status (INITIAL_STATE\<lparr> status := PS_CANCELED \<rparr>))
   \<and> status (snd (reducer {} (INITIAL_STATE\<lparr> status := PS_CANCELED \<rparr>) CLOSE)) = PS_CANCELED
   \<and> status (snd (reducer {} (INITIAL_STATE\<lparr> status := PS_CANCELED \<rparr>)
               (TOGGLE_INCLUDE_FIELD ''a''))) = PS_CANCELED
   \<and> status (snd (reducer {} (INITIAL_STATE\<lparr> status := PS_CANCELED \<rparr>) OPEN)) = PS_UNSPECIFIED"
  using status_after_action[of "{}" "INITIAL_STATE\<lparr> status := PS_CANCELED \<rparr>" CLOSE]
    status_after_action[of "{}" "INITIAL_STATE\<lparr> status := PS_CANCELED \<rparr>" "TOGGLE_INCLUDE_FIELD ''a''"]
    status_after_action[of "{}" "INITIAL_STATE\<lparr> status := PS_CANCELED \<rparr>" OPEN]
  by (simp add: terminal_def)

subsection \<open>C6: the connection is lost\<close>

text \<open>
  C6 as stated fails in its last part. An import is started and the connection is lost
  while the importer runs: the controller is aborted and the handle cleared, but the status
  stays \<open>STARTED\<close>, the state is not the initial one, and \<^verbatim>\<open>openImport\<close> still answers that an
  import is in progress instead of opening the modal.
\<close>

theorem disconnect_leaves_status_started:
  "signals (dispatch DATA_SERVICE_DISCONNECTED
              (snd (startImport_begin ''db.c'' 7 goodEnv [] jsonWorld))) = {0}
   \<and> abortController (importData (dispatch DATA_SERVICE_DISCONNECTED
              (snd (startImport_begin ''db.c'' 7 goodEnv [] jsonWorld)))) = None
   \<and> status (importData (dispatch DATA_SERVICE_DISCONNECTED
              (snd (startImport_begin ''db.c'' 7 goodEnv [] jsonWorld)))) = PS_STARTED
   \<and> last (dispatched (effects (openImport ''db.c'' (dispatch DATA_SERVICE_DISCONNECTED
              (snd (startImport_begin ''db.c'' 7 goodEnv [] jsonWorld))))))
       = OPEN_IN_PROGRESS_MESSAGE
   \<and> \<not> isOpen (importData (openImport ''db.c'' (dispatch DATA_SERVICE_DISCONNECTED
              (snd (startImport_begin ''db.c'' 7 goodEnv [] jsonWorld)))))"
  by (simp add: startImport_begin_def jsonWorld_def world0_def INITIAL_STATE_def
      createErrorLog_def getErrorLogPath_def goodEnv_def newAbortController_def dispatch_def
      onStarted_def effect_def Let_def abort_def openImport_def dispatched_def importerCall_def)

text \<open>
  C6, amended. On \<open>DATA_SERVICE_DISCONNECTED\<close> the reducer aborts the import controller and
  the analyzer controller that the state holds, and no other; it clears both handles and
  closes the modal, and leaves everything else, the status and the analyzer status
  included, as it is. The same action once more changes nothing.
\<close>

theorem disconnect_aborts_and_clears:
  "(case reducer sg st DATA_SERVICE_DISCONNECTED of
      (sg', st') \<Rightarrow>
        sg' = sg \<union> set_option (abortController st) \<union> set_option (analyzeAbortController st)
        \<and> st' = st\<lparr> analyzeAbortController := None, abortController := None, isOpen := False \<rparr>
        \<and> abortController st' = None
        \<and> analyzeAbortController st' = None
        \<and> \<not> isOpen st'
        \<and> status st' = status st
        \<and> analyzeStatus st' = analyzeStatus st
        \<and> reducer sg' st' DATA_SERVICE_DISCONNECTED = (sg', st'))"
  by (auto simp: abort_def split: option.splits)

theorem disconnect_aborts_and_clears_witness:
  "reducer {} (INITIAL_STATE\<lparr> status := PS_STARTED, abortController := Some 3,
                               analyzeAbortController := Some 4, isOpen := True \<rparr>)
     DATA_SERVICE_DISCONNECTED
   = ({3, 4}, INITIAL_STATE\<lparr> status := PS_STARTED \<rparr>)"
  using disconnect_aborts_and_clears[of "{}"
      "INITIAL_STATE\<lparr> status := PS_STARTED, abortController := Some 3,
                       analyzeAbortController := Some 4, isOpen := True \<rparr>"]
  by (auto simp: INITIAL_STATE_def)

subsection \<open>C7: the last progress of a failed import\<close>

text \<open>
  C7, at a run that fails. The importer reports progress twice within the throttle's
  second, so the first report is shown and the second is kept for the trailing call; then
  its promise rejects. \<^verbatim>\<open>startImport\<close> shows the failure and dispatches \<open>FAILED\<close> without
  \<^verbatim>\<open>progressCallback.flush()\<close>: the record of what it did has the toast of the first report
  only. When the promise resolves instead, the flush comes first and the second report is
  shown before the terminal toast.
\<close>

theorem progress_not_flushed_when_import_fails:
  "effects (snd (startImport ''db.c'' 7 goodEnv []
       [ProgressReported 1 10 True, ProgressReported 2 20 False]
       (Rejected \<lparr> message = ''write failed'',
                   err_result = Some \<lparr> aborted = None, docsWritten = 2, docsProcessed = 2 \<rparr> \<rparr>)
       (Some 7) jsonWorld))
   = [Dispatched (STARTED 0 ''/data/ImportErrorLogs/import-a.json.log''),
      ShowStartingToast ''a.json'',
      CalledImportJSON \<lparr> json_dataService = 7, json_ns = ''db.c'', json_input = ''a.json'',
        json_output = Some ''/data/ImportErrorLogs/import-a.json.log'', json_abortSignal = 0,
        json_stopOnErrors = False, json_jsonVariant = ''json'' \<rparr>,
      ShowInProgressToast 1 ''a.json'' 10 100,
      Tracked \<lparr> t_delimiter = None, t_file_type = ''json'', t_all_fields = True,
        t_stop_on_error_selected = False, t_number_of_docs = 2, t_success = False,
        t_aborted = Some False, t_ignore_empty_strings = None \<rparr>,
      ShowFailedToast \<lparr> message = ''write failed'',
        err_result = Some \<lparr> aborted = None, docsWritten = 2, docsProcessed = 2 \<rparr> \<rparr>,
      Dispatched (FAILED \<lparr> message = ''write failed'',
        err_result = Some \<lparr> aborted = None, docsWritten = 2, docsProcessed = 2 \<rparr> \<rparr>),
      ClosedErrorLog ''/data/ImportErrorLogs/import-a.json.log'']
   \<and> effects (snd (startImport ''db.c'' 7 goodEnv []
       [ProgressReported 1 10 True, ProgressReported 2 20 False]
       (Resolved \<lparr> aborted = None, docsWritten = 2, docsProcessed = 2 \<rparr>)
       (Some 7) jsonWorld))
   = [Dispatched (STARTED 0 ''/data/ImportErrorLogs/import-a.json.log''),
      ShowStartingToast ''a.json'',
      CalledImportJSON \<lparr> json_dataService = 7, json_ns = ''db.c'', json_input = ''a.json'',
        json_output = Some ''/data/ImportErrorLogs/import-a.json.log'', json_abortSignal = 0,
        json_stopOnErrors = False, json_jsonVariant = ''json'' \<rparr>,
      ShowInProgressToast 1 ''a.json'' 10 100,
      ProgressFlush,
      ShowInProgressToast 2 ''a.json'' 20 100,
      ClosedErrorLog ''/data/ImportErrorLogs/import-a.json.log'',
      Tracked \<lparr> t_delimiter = None, t_file_type = ''json'', t_all_fields = True,
        t_stop_on_error_selected = False, t_number_of_docs = 2, t_success = True,
        t_aborted = None, t_ignore_empty_strings = None \<rparr>,
      ShowCompletedToast 2,
      Dispatched (FINISHED False []),
      EmittedImportFinished \<lparr> p_ns = ''db.c'', p_size = 100, p_fileType = ''json'',
        p_docsWritten = 2, p_fileIsMultilineJSON = False, p_delimiter = None,
        p_ignoreBlanks = False, p_stopOnErrors = False, p_hasExcluded = False,
        p_hasTransformed = False \<rparr>]"
  by (simp add: startImport_def startImport_settle_def runEvents_def throttleFlush_def
      startImport_begin_def jsonWorld_def world0_def INITIAL_STATE_def
      createErrorLog_def getErrorLogPath_def goodEnv_def newAbortController_def dispatch_def
      onStarted_def onFinished_def onFailed_def effect_def Let_def importerCall_def
      closeErrorLog_def showProgress_def trackPayload_def finishedPayload_def importFields_def
      FILE_TYPES_CSV_def)

lemma runEvent_fileSize: "si_fileSize (fst (runEvent ev lw)) = si_fileSize (fst lw)"
  by (cases ev; cases lw) (simp_all add: throttleFlush_def split: option.splits)

lemma runEvents_fileSize: "si_fileSize (fst (runEvents events lw)) = si_fileSize (fst lw)"
  unfolding runEvents_def
  by (induction events arbitrary: lw) (simp_all add: runEvent_fileSize)

lemma effects_cancelImport: "\<exists>more. effects (cancelImport w) = effects w @ more"
  by (simp add: cancelImport_def Let_def effects_dispatch abortNow_def split: option.splits)

lemma runEvent_shown:
  assumes "reports = [] \<or> si_pending (fst lw) = Some (last reports)
           \<or> ShowInProgressToast (fst (last reports)) (fileName (si_state (fst lw)))
                (snd (last reports)) (si_fileSize (fst lw)) \<in> set (effects (snd lw))"
  shows "reports @ progressReports [ev] = [] \<or>
         si_pending (fst (runEvent ev lw)) = Some (last (reports @ progressReports [ev]))
         \<or> ShowInProgressToast (fst (last (reports @ progressReports [ev])))
              (fileName (si_state (fst (runEvent ev lw))))
              (snd (last (reports @ progressReports [ev]))) (si_fileSize (fst (runEvent ev lw)))
            \<in> set (effects (snd (runEvent ev lw)))"
proof -
  obtain l w where lw: "lw = (l, w)" by (cases lw)
  show ?thesis
  proof (cases ev)
    case (ErrorReported err)
    then show ?thesis using assms by (simp add: lw progressReports_def)
  next
    case (ProgressReported d b atOnce)
    then show ?thesis
      by (simp add: lw progressReports_def showProgress_def effect_def)
  next
    case ThrottleTimer
    then show ?thesis
      using assms
      by (auto simp: lw progressReports_def throttleFlush_def showProgress_def effect_def
          prod_eq_iff split: option.splits)
  next
    case UserCancelled
    obtain more where "effects (cancelImport w) = effects w @ more"
      using effects_cancelImport by blast
    then show ?thesis
      using assms UserCancelled by (auto simp: lw progressReports_def)
  next
    case (Outside a)
    then show ?thesis
      using assms by (auto simp: lw progressReports_def effects_dispatch)
  qed
qed

lemma runEvents_shown:
  assumes "reports = [] \<or> si_pending (fst lw) = Some (last reports)
           \<or> ShowInProgressToast (fst (last reports)) (fileName (si_state (fst lw)))
                (snd (last reports)) (si_fileSize (fst lw)) \<in> set (effects (snd lw))"
  shows "reports @ progressReports events = [] \<or>
         si_pending (fst (runEvents events lw)) = Some (last (reports @ progressReports events))
         \<or> ShowInProgressToast (fst (last (reports @ progressReports events)))
              (fileName (si_state (fst (runEvents events lw))))
              (snd (last (reports @ progressReports events))) (si_fileSize (fst (runEvents events lw)))
            \<in> set (effects (snd (runEvents events lw)))"
  using assms
proof (induction events arbitrary: lw reports)
  case Nil
  then show ?case by (simp add: runEvents_def progressReports_def)
next
  case (Cons ev events)
  have split: "progressReports (ev # events) = progressReports [ev] @ progressReports events"
    by (simp add: progressReports_def)
  show ?case
    using Cons.IH[OF runEvent_shown[OF Cons.prems, of ev]]
    by (simp add: runEvents_def split)
qed

text \<open>
  On the path where the promise resolves, the last progress that the importer reported is
  shown in every run: at the latest by the flush, before the terminal toast.
\<close>

lemma last_progress_shown_when_resolved:
  assumes "progressReports events \<noteq> []"
  shows "ShowInProgressToast (fst (last (progressReports events))) (fileName (importData w))
           (snd (last (progressReports events)))
           (case fileStats (importData w) of Some n \<Rightarrow> n | None \<Rightarrow> 0)
         \<in> set (effects (snd (startImport ns ds env arriving events (Resolved r) cur w)))"
proof -
  obtain l w1 where run: "runEvents events (startImport_begin ns ds env arriving w) = (l, w1)"
    by (cases "runEvents events (startImport_begin ns ds env arriving w)")
  have st: "si_state l = importData w"
    using runEvents_state[of events "startImport_begin ns ds env arriving w"] run by (simp add: begin_state)
  have size: "si_fileSize l = (case fileStats (importData w) of Some n \<Rightarrow> n | None \<Rightarrow> 0)"
    using runEvents_fileSize[of events "startImport_begin ns ds env arriving w"] run
    by (simp add: startImport_begin_def Let_def split_beta)
  let ?a = "last (progressReports events)"
  let ?toast = "ShowInProgressToast (fst ?a) (fileName (importData w)) (snd ?a)
                  (case fileStats (importData w) of Some n \<Rightarrow> n | None \<Rightarrow> 0)"
  have "si_pending l = Some ?a \<or> ?toast \<in> set (effects w1)"
    using runEvents_shown[of "[]" "startImport_begin ns ds env arriving w" events] assms run st size
    by simp
  then have flushed: "?toast \<in> set (effects (snd (throttleFlush (l, effect ProgressFlush w1))))"
    by (auto simp: throttleFlush_def showProgress_def effect_def st size prod_eq_iff
        split: option.splits)
  obtain l2 w2 where f: "throttleFlush (l, effect ProgressFlush w1) = (l2, w2)"
    by (cases "throttleFlush (l, effect ProgressFlush w1)")
  have "\<exists>more. effects (snd (startImport_settle (Resolved r) cur (l, w1))) = effects w2 @ more"
    apply (simp only: startImport_settle_def ImportOutcome.case fst_conv snd_conv f Let_def
        prod.case)
    apply (simp add: effect_def closeErrorLog_def effects_dispatch split: option.splits)
    done
  then show ?thesis
    using flushed f by (auto simp: startImport_def run)
qed

subsection \<open>C8: grouping the columns of a CSV header\<close>

lemma firstOccurrences_snoc:
  "firstOccurrences (xs @ [x]) =
     (if x \<in> set xs then firstOccurrences xs else firstOccurrences xs @ [x])"
  by (simp add: firstOccurrences_def)

lemma set_firstOccurrences [simp]: "set (firstOccurrences xs) = set xs"
  by (simp add: firstOccurrences_def)

lemma distinct_firstOccurrences [simp]: "distinct (firstOccurrences xs)"
  by (simp add: firstOccurrences_def)

lemma firstOccurrences_distinct: "distinct xs \<Longrightarrow> firstOccurrences xs = xs"
  by (simp add: firstOccurrences_def distinct_remdups_id)

lemma columnsOf_snoc:
  "columnsOf f (pre @ [h]) name =
     columnsOf f pre name @ (if f h = name then [length pre] else [])"
proof -
  have "filter (\<lambda>i. f ((pre @ [h]) ! i) = name) [0..<length pre]
          = filter (\<lambda>i. f (pre ! i) = name) [0..<length pre]"
    by (rule filter_cong) (simp_all add: nth_append)
  then show ?thesis
    by (simp add: columnsOf_def)
qed

lemma columnsOf_less: "i \<in> set (columnsOf f hs name) \<Longrightarrow> i < length hs"
  by (simp add: columnsOf_def)

lemma map_of_keyed:
  "map_of (map (\<lambda>name. (name, g name)) names) k = (if k \<in> set names then Some (g k) else None)"
  by (induction names) auto

lemma update_keyed_present:
  "k \<in> set names \<Longrightarrow> distinct names \<Longrightarrow>
     AList.update k v (map (\<lambda>name. (name, g name)) names)
       = map (\<lambda>name. (name, if name = k then v else g name)) names"
  by (induction names) auto

lemma update_keyed_absent:
  "k \<notin> set names \<Longrightarrow>
     AList.update k v (map (\<lambda>name. (name, g name)) names)
       = map (\<lambda>name. (name, g name)) names @ [(k, v)]"
  by (induction names) auto

lemma groupsOf_snoc_present:
  assumes "f h \<in> set (map f pre)"
  shows "AList.update (f h) (columnsOf f pre (f h) @ [length pre]) (groupsOf f pre)
           = groupsOf f (pre @ [h])"
proof -
  let ?names = "firstOccurrences (map f pre)"
  have inn: "f h \<in> set ?names"
    using assms by simp
  have "groupsOf f (pre @ [h]) = map (\<lambda>name. (name, columnsOf f (pre @ [h]) name)) ?names"
    unfolding groupsOf_def using assms by (simp only: map_append list.map firstOccurrences_snoc if_True)
  also have "\<dots> = map (\<lambda>name. (name, if name = f h then columnsOf f pre (f h) @ [length pre]
                                        else columnsOf f pre name)) ?names"
    by (rule map_cong) (auto simp: columnsOf_snoc)
  also have "\<dots> = AList.update (f h) (columnsOf f pre (f h) @ [length pre]) (groupsOf f pre)"
    unfolding groupsOf_def
    by (rule update_keyed_present[OF inn distinct_firstOccurrences, symmetric])
  finally show ?thesis by simp
qed

lemma groupsOf_snoc_absent:
  assumes "f h \<notin> set (map f pre)"
  shows "AList.update (f h) [length pre] (groupsOf f pre) = groupsOf f (pre @ [h])"
proof -
  let ?names = "firstOccurrences (map f pre)"
  have na: "f h \<notin> set ?names"
    using assms by simp
  have "f (pre ! i) \<noteq> f h" if "i < length pre" for i
  proof
    assume eq: "f (pre ! i) = f h"
    have "f (pre ! i) \<in> f ` set pre"
      using nth_mem[OF that] by (rule imageI)
    then show False
      using assms eq by simp
  qed
  then have empty: "columnsOf f pre (f h) = []"
    by (simp add: columnsOf_def filter_empty_conv)
  have old: "map (\<lambda>name. (name, columnsOf f (pre @ [h]) name)) ?names
               = map (\<lambda>name. (name, columnsOf f pre name)) ?names"
    by (rule map_cong) (use na in \<open>auto simp: columnsOf_snoc\<close>)
  have "groupsOf f (pre @ [h])
          = map (\<lambda>name. (name, columnsOf f (pre @ [h]) name)) (?names @ [f h])"
    unfolding groupsOf_def using assms by (simp only: map_append list.map firstOccurrences_snoc if_False)
  also have "\<dots> = map (\<lambda>name. (name, columnsOf f pre name)) ?names @ [(f h, [length pre])]"
    using old empty by (simp add: columnsOf_snoc)
  also have "\<dots> = AList.update (f h) [length pre] (groupsOf f pre)"
    unfolding groupsOf_def by (rule update_keyed_absent[OF na, symmetric])
  finally show ?thesis by simp
qed

lemma fieldsOf_snoc:
  "fieldsOf f (pre @ [h]) =
     (if f h \<in> set (map f pre) then fieldsOf f pre else fieldsOf f pre @ [newField (f h)])"
  by (simp add: fieldsOf_def firstOccurrences_snoc)

lemma getProperty_groupsOf:
  "getProperty (groupsOf f pre) name =
     (if name \<in> set (map f pre) then Own (columnsOf f pre name)
      else if name \<in> set objectPrototypeNames then Inherited else Missing)"
  by (simp add: getProperty_def groupsOf_def map_of_keyed)

text \<open>The first loop, from any point of the header on.\<close>

lemma groupHeaderFields_from:
  assumes "list_all (\<lambda>h. f h \<notin> set objectPrototypeNames) rest"
  shows "groupHeaderFields f (enumerate (length pre) rest) (groupsOf f pre) (fieldsOf f pre)
           = Inr (groupsOf f (pre @ rest), fieldsOf f (pre @ rest))"
  using assms
proof (induction rest arbitrary: pre)
  case Nil
  then show ?case by simp
next
  case (Cons h rest)
  have np: "f h \<notin> set objectPrototypeNames" and rest: "list_all (\<lambda>h. f h \<notin> set objectPrototypeNames) rest"
    using Cons.prems by simp_all
  have nproto: "f h \<noteq> ''__proto__''"
    using np proto_in_names by auto
  note IH = Cons.IH[OF rest, of "pre @ [h]"]
  show ?case
  proof (cases "f h \<in> set (map f pre)")
    case True
    then show ?thesis
      using IH groupsOf_snoc_present[OF True]
      by (simp add: getProperty_groupsOf fieldsOf_snoc)
  next
    case False
    then show ?thesis
      using IH groupsOf_snoc_absent[OF False] np nproto
      by (simp add: getProperty_groupsOf fieldsOf_snoc setProperty_def newField_def)
  qed
qed

lemma groupHeaderFields_all:
  assumes "list_all (\<lambda>h. f h \<notin> set objectPrototypeNames) hs"
  shows "groupHeaderFields f (enumerate 0 hs) [] [] = Inr (groupsOf f hs, fieldsOf f hs)"
  using groupHeaderFields_from[OF assms, of "[]"]
  by (simp add: groupsOf_def fieldsOf_def firstOccurrences_def)

lemma path_newField [simp]: "path (newField name) = name"
  by (simp add: newField_def)

lemma paths_fieldsOf: "map path (fieldsOf f hs) = firstOccurrences (map f hs)"
  by (simp add: fieldsOf_def comp_def)

lemma previewCell_grouped:
  assumes "field \<in> set (fieldsOf f hs)" and "length hs \<le> length row"
  shows "previewCell (groupsOf f hs) row field = Inr (groupedCell f hs row field)"
proof -
  let ?columns = "columnsOf f hs (path field)"
  have own: "getProperty (groupsOf f hs) (path field) = Own ?columns"
    using assms(1) by (auto simp: getProperty_groupsOf fieldsOf_def)
  have less: "i < length row" if "i \<in> set ?columns" for i
    using columnsOf_less[OF that] assms(2) by simp
  have cells: "map (at row) ?columns = map (\<lambda>i. Some (row ! i)) ?columns"
    by (rule map_cong) (simp_all add: at_def less)
  show ?thesis
  proof (cases "length ?columns = 1")
    case True
    then have "?columns ! 0 \<in> set ?columns"
      by (simp add: nth_mem)
    then have "at row (?columns ! 0) = Some (row ! (?columns ! 0))"
      by (simp add: at_def less)
    then show ?thesis
      using True by (simp add: previewCell_def own groupedCell_def)
  next
    case False
    have none: "None \<notin> set (map (at row) ?columns)"
      unfolding cells by auto
    have the: "map (the \<circ> at row) ?columns = map ((!) row) ?columns"
      by (rule map_cong) (simp_all add: at_def less)
    show ?thesis
      using False none
      by (simp add: previewCell_def own groupedCell_def Let_def the del: set_map)
  qed
qed

lemma previewRow_grouped:
  assumes "set fs \<subseteq> set (fieldsOf f hs)" and "length hs \<le> length row"
  shows "previewRow (groupsOf f hs) row fs = Inr (map (groupedCell f hs row) fs)"
  using assms(1)
  by (induction fs) (simp_all add: previewCell_grouped[OF _ assms(2)])

lemma previewRows_grouped:
  assumes "list_all (\<lambda>row. length hs \<le> length row) preview"
  shows "previewRows (groupsOf f hs) (fieldsOf f hs) preview
           = Inr (map (\<lambda>row. map (groupedCell f hs row) (fieldsOf f hs)) preview)"
  using assms
  by (induction preview) (simp_all add: previewRow_grouped)

lemma groupCSVPreview_grouped:
  assumes "list_all (\<lambda>h. f h \<notin> set objectPrototypeNames) hs"
    and "list_all (\<lambda>row. length hs \<le> length row) preview"
  shows "groupCSVPreview f hs preview
           = Inr (fieldsOf f hs, map (\<lambda>row. map (groupedCell f hs row) (fieldsOf f hs)) preview)"
  by (simp add: groupCSVPreview_def groupHeaderFields_all[OF assms(1)] previewRows_grouped[OF assms(2)])

text \<open>
  The paths of the fields of the first loop are own properties of \<^verbatim>\<open>fieldMap\<close>: the other
  cases of \<open>previewCell\<close> do not arise.
\<close>

lemma groupHeaderFields_own:
  assumes "list_all (\<lambda>h. f h \<notin> set objectPrototypeNames) hs"
    and "groupHeaderFields f (enumerate 0 hs) [] [] = Inr (fieldMap, fs)"
    and "field \<in> set fs"
  shows "\<exists>indexes. getProperty fieldMap (path field) = Own indexes"
  using assms groupHeaderFields_all[OF assms(1)]
  by (auto simp: getProperty_groupsOf fieldsOf_def)

text \<open>Any failure of the first loop is the one of a header name that \<^verbatim>\<open>Object.prototype\<close> has.\<close>

lemma groupHeaderFields_fails:
  "groupHeaderFields f entries fieldMap fs = Inl err \<Longrightarrow>
     \<exists>entry \<in> set entries. f (snd entry) \<in> set objectPrototypeNames"
proof (induction entries arbitrary: fieldMap fs)
  case Nil
  then show ?case by simp
next
  case (Cons entry entries)
  obtain index name where e: "entry = (index, name)" by (cases entry)
  show ?case
  proof (cases "getProperty fieldMap (f name)")
    case (Own indexes)
    then show ?thesis
      using Cons.prems Cons.IH by (auto simp: e)
  next
    case Inherited
    then show ?thesis
      by (auto simp: e getProperty_def split: option.splits if_splits)
  next
    case Missing
    then show ?thesis
      using Cons.prems Cons.IH by (auto simp: e Let_def)
  qed
qed

text \<open>The fields of a preview are preview fields, also after \<^verbatim>\<open>loadTypes\<close> has set their types.\<close>

lemma previewFields_fieldsOf:
  assumes "list_all (\<lambda>h. f h \<notin> set objectPrototypeNames) hs"
  shows "previewFields (fieldsOf f hs)"
  unfolding previewFields_def paths_fieldsOf
  using assms by (auto simp: list_all_iff fieldsOf_def newField_def)

lemma groupHeaderFields_succeeds:
  assumes "groupHeaderFields f entries fieldMap fs = Inr r"
    and "fst ` set fieldMap \<inter> set objectPrototypeNames = {}"
  shows "list_all (\<lambda>entry. f (snd entry) \<notin> set objectPrototypeNames) entries"
  using assms
proof (induction entries arbitrary: fieldMap fs)
  case Nil
  then show ?case by simp
next
  case (Cons entry entries)
  obtain index name where e: "entry = (index, name)" by (cases entry)
  show ?case
  proof (cases "getProperty fieldMap (f name)")
    case (Own indexes)
    then have "map_of fieldMap (f name) = Some indexes"
      by (auto simp: getProperty_def split: option.splits if_splits)
    then have "(f name, indexes) \<in> set fieldMap"
      by (rule map_of_SomeD)
    then have own: "f name \<in> fst ` set fieldMap"
      by force
    then have np: "f name \<notin> set objectPrototypeNames"
      using Cons.prems(2) by auto
    have keys: "fst ` set (AList.update (f name) (indexes @ [index]) fieldMap) = fst ` set fieldMap"
      using own by (auto simp: dom_update)
    have next': "groupHeaderFields f entries (AList.update (f name) (indexes @ [index]) fieldMap) fs
                   = Inr r"
      using Cons.prems(1) Own by (simp add: e Let_def)
    have disj: "fst ` set (AList.update (f name) (indexes @ [index]) fieldMap)
                  \<inter> set objectPrototypeNames = {}"
      using Cons.prems(2) by (simp only: keys)
    show ?thesis
      using np Cons.IH[OF next' disj] by (simp add: e)
  next
    case Inherited
    then show ?thesis
      using Cons.prems by (simp add: e)
  next
    case Missing
    then have np: "f name \<notin> set objectPrototypeNames"
      by (auto simp: getProperty_def split: option.splits if_splits)
    have keys: "fst ` set (setProperty (f name) [index] fieldMap) \<subseteq> insert (f name) (fst ` set fieldMap)"
      by (auto simp: setProperty_def dom_update)
    have disj: "fst ` set (setProperty (f name) [index] fieldMap) \<inter> set objectPrototypeNames = {}"
    proof (rule equals0I)
      fix k
      assume "k \<in> fst ` set (setProperty (f name) [index] fieldMap) \<inter> set objectPrototypeNames"
      then have k1: "k \<in> fst ` set (setProperty (f name) [index] fieldMap)"
        and k2: "k \<in> set objectPrototypeNames"
        by simp_all
      have "k \<in> insert (f name) (fst ` set fieldMap)"
        using keys k1 by (rule subsetD)
      then have "k = f name \<or> k \<in> fst ` set fieldMap"
        by simp
      then show False
      proof
        assume "k = f name"
        then show False using k2 np by simp
      next
        assume "k \<in> fst ` set fieldMap"
        then have "k \<in> fst ` set fieldMap \<inter> set objectPrototypeNames"
          using k2 by simp
        then show False using Cons.prems(2) by simp
      qed
    qed
    have next': "groupHeaderFields f entries (setProperty (f name) [index] fieldMap)
             (fs @ [\<lparr> path = f name, checked = True, isArray = Some (endsWith (f name) ''[]''),
                      type = Some ''mixed'', result = None \<rparr>]) = Inr r"
      using Cons.prems(1) Missing by (simp add: e Let_def)
    show ?thesis
      using np Cons.IH[OF next' disj] by (simp add: e)
  qed
qed

lemma groupCSVPreview_fields:
  assumes "groupCSVPreview f hs preview = Inr (fs, vs)"
  shows "previewFields fs" and "fs = fieldsOf f hs"
proof -
  obtain fieldMap where g: "groupHeaderFields f (enumerate 0 hs) [] [] = Inr (fieldMap, fs)"
    using assms by (auto simp: groupCSVPreview_def split: sum.splits)
  have "list_all (\<lambda>entry. f (snd entry) \<notin> set objectPrototypeNames) (enumerate 0 hs)"
    by (rule groupHeaderFields_succeeds[OF g]) simp
  then have "\<forall>h \<in> snd ` set (enumerate 0 hs). f h \<notin> set objectPrototypeNames"
    by (auto simp: list_all_iff)
  moreover have "set (map snd (enumerate 0 hs)) = set hs"
    by (simp only: map_snd_enumerate)
  then have "snd ` set (enumerate 0 hs) = set hs"
    by (simp only: set_map)
  ultimately have ok: "list_all (\<lambda>h. f h \<notin> set objectPrototypeNames) hs"
    by (simp add: list_all_iff)
  show "fs = fieldsOf f hs"
    using g groupHeaderFields_all[OF ok] by simp
  then show "previewFields fs"
    using previewFields_fieldsOf[OF ok] by simp
qed

lemma setDetectedTypes_fields:
  assumes "setDetectedTypes r fs = Inr fs'" and "previewFields fs"
  shows "previewFields fs'" and "map path fs' = map path fs" and "map checked fs' = map checked fs"
proof -
  have "previewFields fs' \<and> map path fs' = map path fs \<and> map checked fs' = map checked fs"
    using assms
  proof (induction fs arbitrary: fs')
    case Nil
    then show ?case by simp
  next
    case (Cons field fs)
    have np: "path field \<notin> set objectPrototypeNames" and rest: "previewFields fs"
      using Cons.prems(2) by (simp_all add: previewFields_def)
    obtain r' where r': "getProperty (ar_fields r) (path field) = Own r'"
      using Cons.prems(1) np
      by (cases "getProperty (ar_fields r) (path field)")
        (auto simp: getProperty_def split: option.splits if_splits)
    obtain rest' where rest': "setDetectedTypes r fs = Inr rest'"
      and fs': "fs' = field\<lparr> type := Some (detected r'), result := Some r' \<rparr> # rest'"
      using Cons.prems(1) r' by (auto split: sum.splits)
    note IH = Cons.IH[OF rest' rest]
    have paths: "map path rest' = map path fs"
      using IH by simp
    have "path field \<notin> set (map path fs)" and "distinct (map path fs)"
      using Cons.prems(2) by (simp_all add: previewFields_def)
    then have d: "distinct (map path fs')"
      by (simp add: fs' paths)
    have "list_all (\<lambda>field. type field \<noteq> None \<and> path field \<notin> set objectPrototypeNames) fs'"
      using IH np by (simp add: fs' previewFields_def)
    then show ?case
      using d IH by (simp add: fs' previewFields_def)
  qed
  then show "previewFields fs'" and "map path fs' = map path fs"
    and "map checked fs' = map checked fs"
    by simp_all
qed

text \<open>
  C8 as stated fails for a group of one column. The header has the one column
  \<^verbatim>\<open>tags[0]\<close>: its field \<^verbatim>\<open>tags[]\<close> is an array field, but its preview cell is the cell of
  the column as it is, not the JSON array of it.
\<close>

theorem single_column_array_is_not_rendered:
  "groupCSVPreview csvHeaderNameToFieldName [''tags[0]''] [[''a'']]
     = Inr ([\<lparr> path = ''tags[]'', checked = True, isArray = Some True, type = Some ''mixed'',
               result = None \<rparr>],
            [[Some ''a'']])
   \<and> JSON_stringify [''a''] = ''['' @ [CHR 0x0A] @ ''  '' @ [CHR 0x22] @ ''a'' @ [CHR 0x22] @ [CHR 0x0A] @ '']''
   \<and> JSON_stringify [''a''] \<noteq> ''a''"
  by (simp add: groupCSVPreview_def csvHeaderNameToFieldName_def getProperty_def setProperty_def
      objectPrototypeNames_def endsWith_def previewCell_def at_def JSON_stringify_def
      quoteJSONString_def quoteJSONChar_def Let_def)

text \<open>
  C8, amended. Take a header none of whose normalized names is a property name of
  \<^verbatim>\<open>Object.prototype\<close>, and a preview whose rows have a cell for every column of the header.
  Then \<^verbatim>\<open>loadCSVPreviewDocs\<close> makes, for every \<open>toFieldName\<close>,
  \<^item> one field for each normalized name, in the order of first occurrence: checked, of
    type \<^verbatim>\<open>mixed\<close>, and an array field if and only if its name ends with \<^verbatim>\<open>[]\<close>;
  \<^item> for each row and field the cell \<open>groupedCell\<close>: the cell of the column as it is when
    the field has one column, and otherwise the non-empty cells of its columns, as a
    JSON array for an array field and joined by a comma and a space for any other;
  \<^item> the same fields again from the paths of these fields, when the normalization leaves
    normalized names as they are.
\<close>

theorem csv_preview_grouping:
  assumes "list_all (\<lambda>h. toFieldName h \<notin> set objectPrototypeNames) headerFields"
    and "list_all (\<lambda>row. length headerFields \<le> length row) preview"
  shows "groupCSVPreview toFieldName headerFields preview
           = Inr (fieldsOf toFieldName headerFields,
                  map (\<lambda>row. map (groupedCell toFieldName headerFields row)
                                (fieldsOf toFieldName headerFields)) preview)
    \<and> map path (fieldsOf toFieldName headerFields) = firstOccurrences (map toFieldName headerFields)
    \<and> distinct (map path (fieldsOf toFieldName headerFields))
    \<and> set (map path (fieldsOf toFieldName headerFields)) = toFieldName ` set headerFields
    \<and> list_all (\<lambda>field. checked field \<and> type field = Some ''mixed''
                    \<and> (isArray field = Some True) = endsWith (path field) ''[]'')
          (fieldsOf toFieldName headerFields)
    \<and> ((\<forall>h \<in> set headerFields. toFieldName (toFieldName h) = toFieldName h) \<longrightarrow>
          groupCSVPreview toFieldName (map path (fieldsOf toFieldName headerFields)) []
            = Inr (fieldsOf toFieldName headerFields, []))"
proof -
  let ?names = "firstOccurrences (map toFieldName headerFields)"
  have one: "groupCSVPreview toFieldName headerFields preview
           = Inr (fieldsOf toFieldName headerFields,
                  map (\<lambda>row. map (groupedCell toFieldName headerFields row)
                                (fieldsOf toFieldName headerFields)) preview)"
    by (rule groupCSVPreview_grouped[OF assms])
  have paths: "map path (fieldsOf toFieldName headerFields) = ?names"
    by (rule paths_fieldsOf)
  have shape: "list_all (\<lambda>field. checked field \<and> type field = Some ''mixed''
                    \<and> (isArray field = Some True) = endsWith (path field) ''[]'')
          (fieldsOf toFieldName headerFields)"
    by (simp add: fieldsOf_def list_all_iff newField_def)
  have again: "groupCSVPreview toFieldName (map path (fieldsOf toFieldName headerFields)) []
            = Inr (fieldsOf toFieldName headerFields, [])"
    if idem: "\<forall>h \<in> set headerFields. toFieldName (toFieldName h) = toFieldName h"
  proof -
    have same: "map toFieldName ?names = ?names"
      by (rule map_idI) (use idem in auto)
    have np: "list_all (\<lambda>h. toFieldName h \<notin> set objectPrototypeNames) ?names"
      unfolding list_all_iff
    proof (rule ballI)
      fix n
      assume "n \<in> set ?names"
      then obtain h where h: "h \<in> set headerFields" "n = toFieldName h"
        by auto
      have "toFieldName h \<notin> set objectPrototypeNames"
        using assms(1) h(1) by (simp add: list_all_iff)
      then show "toFieldName n \<notin> set objectPrototypeNames"
        using idem h by simp
    qed
    have "groupCSVPreview toFieldName ?names [] = Inr (fieldsOf toFieldName ?names, [])"
      using groupCSVPreview_grouped[OF np, of "[]"] by simp
    moreover have "fieldsOf toFieldName ?names = fieldsOf toFieldName headerFields"
      by (simp add: fieldsOf_def same firstOccurrences_distinct)
    ultimately show ?thesis
      by (simp only: paths)
  qed
  show ?thesis
    using one shape again by (simp add: paths)
qed

text \<open>
  The example of the specification: \<^verbatim>\<open>tags[0],tags[1],tags[2]\<close> with the values \<^verbatim>\<open>a,b,c\<close>
  give the one field \<^verbatim>\<open>tags[]\<close> with the array of the three values; here with a blank
  value in a second row, and a column \<^verbatim>\<open>n\<close> of its own.
\<close>

theorem csv_preview_grouping_witness:
  "groupCSVPreview csvHeaderNameToFieldName [''tags[0]'', ''tags[1]'', ''n'', ''tags[2]'']
     [[''a'', ''b'', ''1'', ''c''], [''a'', [], [], ''c'']]
   = Inr ([\<lparr> path = ''tags[]'', checked = True, isArray = Some True, type = Some ''mixed'',
             result = None \<rparr>,
           \<lparr> path = ''n'', checked = True, isArray = Some False, type = Some ''mixed'',
             result = None \<rparr>],
          [[Some (JSON_stringify [''a'', ''b'', ''c'']), Some ''1''],
           [Some (JSON_stringify [''a'', ''c'']), Some []]])"
proof -
  have names: "map csvHeaderNameToFieldName [''tags[0]'', ''tags[1]'', ''n'', ''tags[2]'']
                 = [''tags[]'', ''tags[]'', ''n'', ''tags[]'']"
    by (simp add: csvHeaderNameToFieldName_def)
  have h1: "list_all (\<lambda>h. csvHeaderNameToFieldName h \<notin> set objectPrototypeNames)
              [''tags[0]'', ''tags[1]'', ''n'', ''tags[2]'']"
    using names by (simp add: objectPrototypeNames_def)
  have h2: "list_all (\<lambda>row. length [''tags[0]'', ''tags[1]'', ''n'', ''tags[2]''] \<le> length row)
              [[''a'', ''b'', ''1'', ''c''], [''a'', [], [], ''c'']]"
    by simp
  have cols: "columnsOf csvHeaderNameToFieldName [''tags[0]'', ''tags[1]'', ''n'', ''tags[2]''] ''tags[]''
                = [0, 1, 3]"
    "columnsOf csvHeaderNameToFieldName [''tags[0]'', ''tags[1]'', ''n'', ''tags[2]''] ''n'' = [2]"
    using names by (simp_all add: columnsOf_def upt_rec)
  have fs: "fieldsOf csvHeaderNameToFieldName [''tags[0]'', ''tags[1]'', ''n'', ''tags[2]'']
              = [newField ''tags[]'', newField ''n'']"
    unfolding fieldsOf_def names by (simp add: firstOccurrences_def)
  show ?thesis
    using csv_preview_grouping[OF h1 h2]
    by (simp add: fs groupedCell_def cols newField_def endsWith_def)
qed

text \<open>
  Outside the two premises the preview is not made: a column named like a property of
  \<^verbatim>\<open>Object.prototype\<close> and a row that is shorter than a group of two columns make
  \<^verbatim>\<open>loadCSVPreviewDocs\<close> throw (and dispatch \<open>ANALYZE_FAILED\<close>).
\<close>

lemma header_named_constructor:
  "groupCSVPreview csvHeaderNameToFieldName [''id'', ''constructor''] [[''1'', ''x'']]
     = Inl (TypeError ''fieldMap[uniqueName].push is not a function'')"
  by (simp add: groupCSVPreview_def csvHeaderNameToFieldName_def getProperty_def setProperty_def
      objectPrototypeNames_def Let_def)

lemma short_row_in_group:
  "groupCSVPreview csvHeaderNameToFieldName [''a[0]'', ''a[1]''] [[''x'']]
     = Inl (TypeError ''Cannot read properties of undefined (reading length)'')"
  by (simp add: groupCSVPreview_def csvHeaderNameToFieldName_def getProperty_def setProperty_def
      objectPrototypeNames_def Let_def previewCell_def at_def)

subsection \<open>C9: the errors kept in memory\<close>

lemma importerErrorLog_reported:
  "importerErrorLog output events = (if output = None then [] else reportedErrors events)"
  by (simp add: importerErrorLog_def reportedErrors_def split: option.splits)

lemma runEvent_errors:
  "si_errors (fst (runEvent ev lw)) =
     (case ev of ErrorReported err \<Rightarrow> errorCallback err (si_errors (fst lw)) | _ \<Rightarrow> si_errors (fst lw))"
  by (cases ev; cases lw) (simp_all add: throttleFlush_def split: option.splits)

lemma take_errorCallback:
  "length es \<le> 5 \<Longrightarrow> errorCallback err es = take 5 (es @ [err])"
  by (simp add: errorCallback_def)

lemma runEvents_errors:
  "length (si_errors (fst lw)) \<le> 5 \<Longrightarrow>
     si_errors (fst (runEvents events lw)) = take 5 (si_errors (fst lw) @ reportedErrors events)"
  unfolding runEvents_def
proof (induction events arbitrary: lw)
  case Nil
  then show ?case by (simp add: reportedErrors_def)
next
  case (Cons ev events)
  show ?case
  proof (cases ev)
    case (ErrorReported err)
    have step: "si_errors (fst (runEvent ev lw)) = take 5 (si_errors (fst lw) @ [err])"
      using Cons.prems ErrorReported by (simp add: runEvent_errors take_errorCallback)
    have "si_errors (fst (fold runEvent events (runEvent ev lw)))
            = take 5 (take 5 (si_errors (fst lw) @ [err]) @ reportedErrors events)"
      using Cons.IH[of "runEvent ev lw"] step by simp
    also have "\<dots> = take 5 (si_errors (fst lw) @ err # reportedErrors events)"
      by (cases "length (si_errors (fst lw)) < 5") (use Cons.prems in auto)
    finally show ?thesis
      using ErrorReported by (simp add: reportedErrors_def)
  next
    case (ProgressReported d b now)
    then have "si_errors (fst (runEvent ev lw)) = si_errors (fst lw)"
      by (simp add: runEvent_errors)
    then show ?thesis
      using Cons.IH[of "runEvent ev lw"] Cons.prems ProgressReported
      by (simp add: reportedErrors_def)
  next
    case ThrottleTimer
    then have "si_errors (fst (runEvent ev lw)) = si_errors (fst lw)"
      by (simp add: runEvent_errors)
    then show ?thesis
      using Cons.IH[of "runEvent ev lw"] Cons.prems ThrottleTimer
      by (simp add: reportedErrors_def)
  next
    case UserCancelled
    then have "si_errors (fst (runEvent ev lw)) = si_errors (fst lw)"
      by (simp add: runEvent_errors)
    then show ?thesis
      using Cons.IH[of "runEvent ev lw"] Cons.prems UserCancelled
      by (simp add: reportedErrors_def)
  next
    case (Outside a)
    then have "si_errors (fst (runEvent ev lw)) = si_errors (fst lw)"
      by (simp add: runEvent_errors)
    then show ?thesis
      using Cons.IH[of "runEvent ev lw"] Cons.prems Outside
      by (simp add: reportedErrors_def)
  qed
qed

lemma begin_errors_short:
  "length (si_errors (fst (startImport_begin ns ds env arriving w))) \<le> 1"
  by (simp add: startImport_begin_def Let_def split_beta createErrorLog_def newAbortController_def
      split: sum.splits option.splits)

text \<open>
  C9 as stated fails in its last part. The directory of the error logs cannot be made, so
  \<^verbatim>\<open>startImport\<close> keeps the setup error and calls the importer without an output stream:
  there is no error log in this run. The importer reports seven errors. The error list
  holds the setup error and the first four of them; the other three are neither in the
  list nor in a log, and the run completes.
\<close>

theorem errors_beyond_head_lost_without_log:
  "map message (reportedErrors sevenErrors)
     = [''e1'', ''e2'', ''e3'', ''e4'', ''e5'', ''e6'', ''e7'']
   \<and> importerCalled (startImport_begin ''db.c'' 7 noLogEnv [] csvWorld)
     = CalledImportCSV \<lparr> csv_dataService = 7, csv_ns = ''db.c'', csv_input = ''a.csv'',
         csv_output = None, csv_delimiter = Some Comma, csv_fields = [], csv_abortSignal = 0,
         csv_stopOnErrors = False, csv_ignoreEmptyStrings = True \<rparr>
   \<and> importerErrorLog
        (importerOutput (importerCalled (startImport_begin ''db.c'' 7 noLogEnv [] csvWorld)))
        sevenErrors = []
   \<and> map message (si_errors (fst (runEvents sevenErrors
        (startImport_begin ''db.c'' 7 noLogEnv [] csvWorld))))
     = [''unable to create import error log file: EACCES'', ''e1'', ''e2'', ''e3'', ''e4'']
   \<and> status (importData (snd (startImport ''db.c'' 7 noLogEnv [] sevenErrors
        (Resolved \<lparr> aborted = None, docsWritten = 3, docsProcessed = 10 \<rparr>) (Some 7) csvWorld)))
     = PS_COMPLETED"
  by (simp add: startImport_def startImport_settle_def runEvents_def throttleFlush_def
      startImport_begin_def csvWorld_def world0_def INITIAL_STATE_def sevenErrors_def
      reportedErrors_def errorCallback_def importerCalled_def importerOutput_def
      importerErrorLog_def createErrorLog_def getErrorLogPath_def noLogEnv_def
      newAbortController_def dispatch_def onStarted_def onFinished_def effect_def Let_def
      importerCall_def closeErrorLog_def unableToCreate_def trackPayload_def
      finishedPayload_def importFields_def FILE_TYPES_CSV_def)

lemma begin_stream:
  "si_errorLogWriteStream (fst (startImport_begin ns ds env arriving w))
     = fst (snd (createErrorLog env (fileName (importData w))))"
  by (simp add: startImport_begin_def Let_def split_beta)

lemma begin_errors:
  "si_errors (fst (startImport_begin ns ds env arriving w))
     = snd (snd (createErrorLog env (fileName (importData w))))"
  by (simp add: startImport_begin_def Let_def split_beta)

lemma createErrorLog_made:
  "fst (snd (createErrorLog env name)) \<noteq> None \<Longrightarrow> snd (snd (createErrorLog env name)) = []"
  by (auto simp: createErrorLog_def split: sum.splits option.splits if_splits)

text \<open>
  C9, amended. \<^verbatim>\<open>errorCallback\<close> appends an incoming error if and only if fewer than five
  errors are stored. So after any run the error list of \<^verbatim>\<open>startImport\<close> holds the first five,
  in the order of arrival, of the errors it began with (none, or the one of a failed
  setup) followed by the errors the importer reported, and it never holds more than five.
  The importer is handed the stream of the error log as its \<^verbatim>\<open>output\<close> when the log was made,
  and no output when it was not. When the log was made, the list began empty and the log
  holds every reported error (the importer's writing is modelled from the spec).
\<close>

theorem errors_bounded_head_and_logged:
  "(errorCallback err es = es @ [err]) = (length es < 5)
   \<and> (errorCallback err es = es) = (\<not> length es < 5)
   \<and> (case runEvents events (startImport_begin ns ds env arriving w) of
        (l, w') \<Rightarrow>
          si_errors l = take 5 (si_errors (fst (startImport_begin ns ds env arriving w)) @ reportedErrors events)
          \<and> length (si_errors l) \<le> 5)
   \<and> importerOutput (importerCalled (startImport_begin ns ds env arriving w))
       = fst (snd (createErrorLog env (fileName (importData w))))
   \<and> (fst (snd (createErrorLog env (fileName (importData w)))) \<noteq> None \<longrightarrow>
        si_errors (fst (runEvents events (startImport_begin ns ds env arriving w)))
          = take 5 (reportedErrors events)
        \<and> importerErrorLog (importerOutput (importerCalled (startImport_begin ns ds env arriving w)))
            events = reportedErrors events)"
proof -
  let ?begun = "startImport_begin ns ds env arriving w"
  have cb: "(errorCallback err es = es @ [err]) = (length es < 5)"
    "(errorCallback err es = es) = (\<not> length es < 5)"
    by (simp_all add: errorCallback_def)
  have short: "length (si_errors (fst ?begun)) \<le> 5"
    using begin_errors_short[of ns ds env arriving w] by simp
  have run: "si_errors (fst (runEvents events ?begun))
    = take 5 (si_errors (fst ?begun) @ reportedErrors events)"
    by (rule runEvents_errors[OF short])
  have out: "importerOutput (importerCalled ?begun)
       = fst (snd (createErrorLog env (fileName (importData w))))"
    by (simp add: begin_call importerCall_output begin_stream)
  have made: "si_errors (fst (runEvents events ?begun)) = take 5 (reportedErrors events)
        \<and> importerErrorLog (importerOutput (importerCalled ?begun)) events = reportedErrors events"
    if "fst (snd (createErrorLog env (fileName (importData w)))) \<noteq> None"
  proof -
    have "si_errors (fst ?begun) = []"
      using createErrorLog_made[OF that] by (simp add: begin_errors)
    then have "si_errors (fst (runEvents events ?begun)) = take 5 (reportedErrors events)"
      using run by simp
    moreover have "importerErrorLog (importerOutput (importerCalled ?begun)) events
        = reportedErrors events"
      using that by (auto simp: out importerErrorLog_reported)
    ultimately show ?thesis by simp
  qed
  have third: "(case runEvents events ?begun of
        (l, w') \<Rightarrow>
          si_errors l = take 5 (si_errors (fst ?begun) @ reportedErrors events)
          \<and> length (si_errors l) \<le> 5)"
    using run by (simp add: split_beta)
  show ?thesis
    using cb third out made by blast
qed

text \<open>
  The log can be made and seven errors are reported: the list holds the first five, the
  log that the importer was handed holds all seven.
\<close>

theorem errors_bounded_head_and_logged_witness:
  "fst (snd (createErrorLog goodEnv (fileName (importData csvWorld))))
     = Some ''/data/ImportErrorLogs/import-a.csv.log''
   \<and> map message (si_errors (fst (runEvents sevenErrors (startImport_begin ''db.c'' 7 goodEnv [] csvWorld))))
     = [''e1'', ''e2'', ''e3'', ''e4'', ''e5'']
   \<and> map message (importerErrorLog
        (importerOutput (importerCalled (startImport_begin ''db.c'' 7 goodEnv [] csvWorld)))
        sevenErrors)
     = [''e1'', ''e2'', ''e3'', ''e4'', ''e5'', ''e6'', ''e7'']"
proof -
  have made: "fst (snd (createErrorLog goodEnv (fileName (importData csvWorld))))
     = Some ''/data/ImportErrorLogs/import-a.csv.log''"
    by (simp add: csvWorld_def world0_def INITIAL_STATE_def createErrorLog_def
        getErrorLogPath_def goodEnv_def Let_def)
  then have h: "fst (snd (createErrorLog goodEnv (fileName (importData csvWorld)))) \<noteq> None"
    by simp
  have r: "map message (reportedErrors sevenErrors) = [''e1'', ''e2'', ''e3'', ''e4'', ''e5'', ''e6'', ''e7'']"
    by (simp add: reportedErrors_def sevenErrors_def)
  note run = errors_bounded_head_and_logged[where events = sevenErrors and ns = "''db.c''"
      and ds = 7 and env = goodEnv and w = csvWorld and arriving = "[]",
      THEN conjunct2, THEN conjunct2, THEN conjunct2, THEN conjunct2, THEN mp, OF h]
  show ?thesis
    using made r run by (simp add: take_map[symmetric])
qed

subsection \<open>C10: ignoreBlanks concerns CSV only\<close>

lemma sameButIgnoreBlanks_fields:
  assumes "sameButIgnoreBlanks s t"
  shows "isOpen s = isOpen t" "isInProgressMessageOpen s = isInProgressMessageOpen t"
    "errors s = errors t" "fileType s = fileType t" "fileName s = fileName t"
    "errorLogFilePath s = errorLogFilePath t" "fileIsMultilineJSON s = fileIsMultilineJSON t"
    "useHeaderLines s = useHeaderLines t" "status s = status t" "fileStats s = fileStats t"
    "analyzeBytesProcessed s = analyzeBytesProcessed t" "analyzeBytesTotal s = analyzeBytesTotal t"
    "delimiter s = delimiter t" "stopOnErrors s = stopOnErrors t" "fields' s = fields' t"
    "values' s = values' t" "previewLoaded s = previewLoaded t" "exclude s = exclude t"
    "transform s = transform t" "abortController s = abortController t"
    "analyzeAbortController s = analyzeAbortController t" "analyzeResult s = analyzeResult t"
    "analyzeStatus s = analyzeStatus t" "analyzeError s = analyzeError t"
  using assms unfolding sameButIgnoreBlanks_def
  by (cases s; cases t; simp)+

lemma sameButIgnoreBlanks_refl: "sameButIgnoreBlanks s s"
  by (simp add: sameButIgnoreBlanks_def)

lemma sameButIgnoreBlanks_update: "sameButIgnoreBlanks (s\<lparr> ignoreBlanks := b \<rparr>) s"
  by (simp add: sameButIgnoreBlanks_def)

lemma reducer_sameButIgnoreBlanks:
  assumes "sameButIgnoreBlanks s t"
  shows "fst (reducer sg s a) = fst (reducer sg t a)"
    and "sameButIgnoreBlanks (snd (reducer sg s a)) (snd (reducer sg t a))"
proof -
  note f = sameButIgnoreBlanks_fields[OF assms]
  show "fst (reducer sg s a) = fst (reducer sg t a)"
    by (cases a) (simp_all add: f Let_def)
  have st: "s\<lparr> ignoreBlanks := True \<rparr> = t\<lparr> ignoreBlanks := True \<rparr>"
    using assms by (simp add: sameButIgnoreBlanks_def)
  show "sameButIgnoreBlanks (snd (reducer sg s a)) (snd (reducer sg t a))"
    unfolding sameButIgnoreBlanks_def
    by (cases a; cases s; cases t) (use st f in \<open>simp_all add: Let_def\<close>)
qed

lemma dispatch_sameButIgnoreBlanks:
  assumes "sameButIgnoreBlanksW v w"
  shows "sameButIgnoreBlanksW (dispatch a v) (dispatch a w)"
proof -
  have s: "sameButIgnoreBlanks (importData v) (importData w)" and g: "signals v = signals w"
    using assms by (simp_all add: sameButIgnoreBlanksW_def)
  show ?thesis
    using assms reducer_sameButIgnoreBlanks[OF s, of "signals w" a] g
    by (simp add: sameButIgnoreBlanksW_def dispatch_def split_beta)
qed

lemma effect_sameButIgnoreBlanks:
  "sameButIgnoreBlanksW v w \<Longrightarrow> sameButIgnoreBlanksW (effect e v) (effect e w)"
  by (simp add: sameButIgnoreBlanksW_def effect_def)

lemma abortNow_sameButIgnoreBlanks:
  "sameButIgnoreBlanksW v w \<Longrightarrow> sameButIgnoreBlanksW (abortNow c v) (abortNow c w)"
  by (simp add: sameButIgnoreBlanksW_def abortNow_def)

lemma cancelImport_sameButIgnoreBlanks:
  assumes "sameButIgnoreBlanksW v w"
  shows "sameButIgnoreBlanksW (cancelImport v) (cancelImport w)"
proof -
  have s: "sameButIgnoreBlanks (importData v) (importData w)"
    using assms by (simp add: sameButIgnoreBlanksW_def)
  note f = sameButIgnoreBlanks_fields[OF s]
  show ?thesis
    unfolding cancelImport_def Let_def f
    by (auto split: option.splits
        intro!: dispatch_sameButIgnoreBlanks abortNow_sameButIgnoreBlanks assms)
qed

lemma sameLocals_fields:
  assumes "sameLocals k l"
  shows "si_ns k = si_ns l" "si_dataService k = si_dataService l"
    "si_ignoreBlanks k = si_ignoreBlanks l" "si_fileSize k = si_fileSize l"
    "si_fields k = si_fields l" "si_errors k = si_errors l"
    "si_errorLogFilePath k = si_errorLogFilePath l"
    "si_errorLogWriteStream k = si_errorLogWriteStream l"
    "si_abortController k = si_abortController l" "si_pending k = si_pending l"
    "sameButIgnoreBlanks (si_state k) (si_state l)"
  using assms unfolding sameLocals_def
  by (cases k; cases l; simp)+

lemma arriving_sameButIgnoreBlanks:
  "sameButIgnoreBlanksW v w \<Longrightarrow>
     sameButIgnoreBlanksW (fold dispatch arriving v) (fold dispatch arriving w)"
  by (induction arriving arbitrary: v w) (simp_all add: dispatch_sameButIgnoreBlanks)

lemma begin_sameButIgnoreBlanks:
  assumes "sameButIgnoreBlanksW v w" and "fileType (importData w) \<noteq> ''csv''"
  shows "sameLocals (fst (startImport_begin ns ds env arriving v)) (fst (startImport_begin ns ds env arriving w))"
    and "sameButIgnoreBlanksW (snd (startImport_begin ns ds env arriving v)) (snd (startImport_begin ns ds env arriving w))"
proof -
  have s: "sameButIgnoreBlanks (importData v) (importData w)"
    using assms by (simp add: sameButIgnoreBlanksW_def)
  note f = sameButIgnoreBlanks_fields[OF s]
  note later = arriving_sameButIgnoreBlanks[OF assms(1), of arriving]
  have s': "sameButIgnoreBlanks (importData (fold dispatch arriving v))
              (importData (fold dispatch arriving w))"
    using later by (simp add: sameButIgnoreBlanksW_def)
  have w: "signals (fold dispatch arriving v) = signals (fold dispatch arriving w)"
    "nextController (fold dispatch arriving v) = nextController (fold dispatch arriving w)"
    "analyses (fold dispatch arriving v) = analyses (fold dispatch arriving w)"
    "effects (fold dispatch arriving v) = effects (fold dispatch arriving w)"
    using later by (simp_all add: sameButIgnoreBlanksW_def)
  show "sameLocals (fst (startImport_begin ns ds env arriving v)) (fst (startImport_begin ns ds env arriving w))"
    using assms(2) s
    by (simp add: startImport_begin_def Let_def split_beta sameLocals_def f w
        newAbortController_def FILE_TYPES_CSV_def)
  have r: "sameButIgnoreBlanks
             (snd (reducer (signals (fold dispatch arriving w)) (importData (fold dispatch arriving v)) a))
             (snd (reducer (signals (fold dispatch arriving w)) (importData (fold dispatch arriving w)) a))"
    for a
    by (rule reducer_sameButIgnoreBlanks(2)[OF s'])
  have g: "fst (reducer (signals (fold dispatch arriving w)) (importData (fold dispatch arriving v)) a)
             = fst (reducer (signals (fold dispatch arriving w)) (importData (fold dispatch arriving w)) a)"
    for a
    by (rule reducer_sameButIgnoreBlanks(1)[OF s'])
  show "sameButIgnoreBlanksW (snd (startImport_begin ns ds env arriving v)) (snd (startImport_begin ns ds env arriving w))"
    using assms(2) r g
    by (simp add: startImport_begin_def Let_def split_beta sameButIgnoreBlanksW_def f w
        newAbortController_def FILE_TYPES_CSV_def dispatch_def[of "onStarted x y" for x y]
        effect_def importerCall_def)
qed

lemma showProgress_sameButIgnoreBlanks:
  assumes "sameLocals k l" and "sameButIgnoreBlanksW v w"
  shows "sameButIgnoreBlanksW (showProgress k args v) (showProgress l args w)"
proof -
  note lf = sameLocals_fields[OF assms(1)]
  note f = sameButIgnoreBlanks_fields[OF lf(11)]
  show ?thesis
    using assms(2) by (simp add: showProgress_def lf f effect_sameButIgnoreBlanks)
qed

lemma sameLocals_pending:
  "sameLocals k l \<Longrightarrow> sameLocals (k\<lparr> si_pending := p \<rparr>) (l\<lparr> si_pending := p \<rparr>)"
  unfolding sameLocals_def by (cases k; cases l; simp)

lemma sameLocals_errors:
  "sameLocals k l \<Longrightarrow> sameLocals (k\<lparr> si_errors := e \<rparr>) (l\<lparr> si_errors := e \<rparr>)"
  unfolding sameLocals_def by (cases k; cases l; simp)

lemma throttleFlush_sameButIgnoreBlanks:
  assumes "sameLocals k l" and "sameButIgnoreBlanksW v w"
  shows "sameLocals (fst (throttleFlush (k, v))) (fst (throttleFlush (l, w)))"
    and "sameButIgnoreBlanksW (snd (throttleFlush (k, v))) (snd (throttleFlush (l, w)))"
  using assms sameLocals_fields(10)[OF assms(1)]
  by (auto simp: throttleFlush_def sameLocals_pending showProgress_sameButIgnoreBlanks
      split: option.splits)

lemma runEvent_sameButIgnoreBlanks:
  assumes "sameLocals k l" and "sameButIgnoreBlanksW v w"
  shows "sameLocals (fst (runEvent ev (k, v))) (fst (runEvent ev (l, w)))"
    and "sameButIgnoreBlanksW (snd (runEvent ev (k, v))) (snd (runEvent ev (l, w)))"
proof -
  note lf = sameLocals_fields[OF assms(1)]
  show "sameLocals (fst (runEvent ev (k, v))) (fst (runEvent ev (l, w)))"
    using assms
    by (cases ev)
      (simp_all add: lf sameLocals_errors sameLocals_pending throttleFlush_sameButIgnoreBlanks)
  show "sameButIgnoreBlanksW (snd (runEvent ev (k, v))) (snd (runEvent ev (l, w)))"
    using assms
    by (cases ev)
      (simp_all add: showProgress_sameButIgnoreBlanks throttleFlush_sameButIgnoreBlanks
        cancelImport_sameButIgnoreBlanks dispatch_sameButIgnoreBlanks)
qed

lemma runEvents_sameButIgnoreBlanks:
  assumes "sameLocals (fst kv) (fst lw)" and "sameButIgnoreBlanksW (snd kv) (snd lw)"
  shows "sameLocals (fst (runEvents events kv)) (fst (runEvents events lw))
         \<and> sameButIgnoreBlanksW (snd (runEvents events kv)) (snd (runEvents events lw))"
  using assms unfolding runEvents_def
proof (induction events arbitrary: kv lw)
  case Nil
  then show ?case by simp
next
  case (Cons ev events)
  obtain k v l w where kv: "kv = (k, v)" and lw: "lw = (l, w)"
    by (cases kv, cases lw) blast
  show ?case
    using Cons.IH[of "runEvent ev kv" "runEvent ev lw"] Cons.prems
      runEvent_sameButIgnoreBlanks[of k l v w ev]
    by (simp add: kv lw)
qed

lemma trackPayload_same:
  assumes "sameLocals k l" and "fileType (si_state l) \<noteq> ''csv''"
  shows "trackPayload k n s a = trackPayload l n s a"
proof -
  note lf = sameLocals_fields[OF assms(1)]
  note f = sameButIgnoreBlanks_fields[OF lf(11)]
  show ?thesis using assms(2) by (simp add: trackPayload_def lf f)
qed

lemma finishedPayload_same:
  assumes "sameLocals k l"
  shows "finishedPayload k r = finishedPayload l r"
proof -
  note lf = sameLocals_fields[OF assms(1)]
  note f = sameButIgnoreBlanks_fields[OF lf(11)]
  show ?thesis by (simp add: finishedPayload_def lf f)
qed

lemma closeErrorLog_sameButIgnoreBlanks:
  assumes "sameLocals k l" and "sameButIgnoreBlanksW v w"
  shows "sameButIgnoreBlanksW (closeErrorLog k v) (closeErrorLog l w)"
  using assms(2) sameLocals_fields(8)[OF assms(1)]
  by (simp add: closeErrorLog_def effect_sameButIgnoreBlanks split: option.splits)

lemma settle_sameButIgnoreBlanks:
  assumes "sameLocals k l" and "sameButIgnoreBlanksW v w" and "fileType (si_state l) \<noteq> ''csv''"
  shows "fst (startImport_settle outcome cur (k, v)) = fst (startImport_settle outcome cur (l, w))"
    and "sameButIgnoreBlanksW (snd (startImport_settle outcome cur (k, v)))
           (snd (startImport_settle outcome cur (l, w)))"
proof -
  note lf = sameLocals_fields[OF assms(1)]
  have g: "signals v = signals w"
    using assms(2) by (simp add: sameButIgnoreBlanksW_def)
  have pf: "sameButIgnoreBlanksW (effect ProgressFlush v) (effect ProgressFlush w)"
    by (rule effect_sameButIgnoreBlanks[OF assms(2)])
  note tf = throttleFlush_sameButIgnoreBlanks[OF assms(1) pf]
  obtain k1 v1 where k1: "throttleFlush (k, effect ProgressFlush v) = (k1, v1)"
    by (cases "throttleFlush (k, effect ProgressFlush v)")
  obtain l1 w1 where l1: "throttleFlush (l, effect ProgressFlush w) = (l1, w1)"
    by (cases "throttleFlush (l, effect ProgressFlush w)")
  have sl: "sameLocals k1 l1" and sw: "sameButIgnoreBlanksW v1 w1"
    using tf k1 l1 by simp_all
  note lf1 = sameLocals_fields[OF sl]
  have ft: "fileType (si_state l1) \<noteq> ''csv''"
    using throttleFlush_keeps(2)[OF l1] assms(3) by simp
  show "fst (startImport_settle outcome cur (k, v)) = fst (startImport_settle outcome cur (l, w))"
    by (cases outcome) (simp_all add: startImport_settle_def Let_def split_beta split: option.splits)
  show "sameButIgnoreBlanksW (snd (startImport_settle outcome cur (k, v)))
           (snd (startImport_settle outcome cur (l, w)))"
  proof (cases outcome)
    case (Resolved r)
    show ?thesis
      using sl sw
      by (simp add: Resolved startImport_settle_def Let_def k1 l1 lf1
          trackPayload_same[OF sl ft] finishedPayload_same[OF sl]
          closeErrorLog_sameButIgnoreBlanks effect_sameButIgnoreBlanks dispatch_sameButIgnoreBlanks)
  next
    case (Rejected err)
    show ?thesis
      using assms(1,2)
      by (simp add: Rejected startImport_settle_def Let_def lf g
          trackPayload_same[OF assms(1) assms(3)]
          closeErrorLog_sameButIgnoreBlanks effect_sameButIgnoreBlanks dispatch_sameButIgnoreBlanks
          split: option.splits)
  qed
qed

text \<open>
  C10. The \<^verbatim>\<open>ignoreBlanks\<close> that \<^verbatim>\<open>startImport\<close> works with is false whenever the file type is
  not \<^verbatim>\<open>csv\<close>, and then the importer called is \<^verbatim>\<open>importJSON\<close>, whose options have no such
  entry. So for a file that is not CSV the setting changes nothing that \<^verbatim>\<open>startImport\<close>
  does: with any value \<open>b\<close> of the setting the whole call ends the same way and has the same
  effects, the call of the importer among them.
\<close>

theorem ignoreBlanks_only_for_csv:
  assumes "fileType (importData w) \<noteq> ''csv''"
  shows "si_ignoreBlanks (fst (startImport_begin ns ds env arriving w)) = False
    \<and> importerCall (fst (startImport_begin ns ds env arriving w)) =
        CalledImportJSON \<lparr>
          json_dataService = ds, json_ns = ns, json_input = fileName (importData w),
          json_output = si_errorLogWriteStream (fst (startImport_begin ns ds env arriving w)),
          json_abortSignal = nextController w, json_stopOnErrors = stopOnErrors (importData w),
          json_jsonVariant = (if fileIsMultilineJSON (importData w) then ''jsonl'' else ''json'') \<rparr>
    \<and> fst (startImport ns ds env arriving events outcome cur
             (w\<lparr> importData := (importData w)\<lparr> ignoreBlanks := b \<rparr> \<rparr>))
        = fst (startImport ns ds env arriving events outcome cur w)
    \<and> effects (snd (startImport ns ds env arriving events outcome cur
             (w\<lparr> importData := (importData w)\<lparr> ignoreBlanks := b \<rparr> \<rparr>)))
        = effects (snd (startImport ns ds env arriving events outcome cur w))"
proof -
  let ?v = "w\<lparr> importData := (importData w)\<lparr> ignoreBlanks := b \<rparr> \<rparr>"
  have vw: "sameButIgnoreBlanksW ?v w"
    by (simp add: sameButIgnoreBlanksW_def sameButIgnoreBlanks_update)
  note b = begin_sameButIgnoreBlanks[OF vw assms, of ns ds env arriving]
  note r = runEvents_sameButIgnoreBlanks[OF b, of events]
  obtain k v where kv: "runEvents events (startImport_begin ns ds env arriving ?v) = (k, v)"
    by (cases "runEvents events (startImport_begin ns ds env arriving ?v)")
  obtain l w' where lw: "runEvents events (startImport_begin ns ds env arriving w) = (l, w')"
    by (cases "runEvents events (startImport_begin ns ds env arriving w)")
  have sl: "sameLocals k l" and sw: "sameButIgnoreBlanksW v w'"
    using r kv lw by simp_all
  have ft: "fileType (si_state l) \<noteq> ''csv''"
    using runEvents_state[of events "startImport_begin ns ds env arriving w"] lw assms
    by (simp add: begin_state)
  note s = settle_sameButIgnoreBlanks[OF sl sw ft, of outcome cur]
  have one: "si_ignoreBlanks (fst (startImport_begin ns ds env arriving w)) = False"
    using assms by (simp add: startImport_begin_def Let_def split_beta FILE_TYPES_CSV_def)
  have two: "importerCall (fst (startImport_begin ns ds env arriving w)) =
        CalledImportJSON \<lparr>
          json_dataService = ds, json_ns = ns, json_input = fileName (importData w),
          json_output = si_errorLogWriteStream (fst (startImport_begin ns ds env arriving w)),
          json_abortSignal = nextController w, json_stopOnErrors = stopOnErrors (importData w),
          json_jsonVariant = (if fileIsMultilineJSON (importData w) then ''jsonl'' else ''json'') \<rparr>"
    using assms
    by (simp add: startImport_begin_def Let_def split_beta importerCall_def newAbortController_def
        nextController_arriving)
  show ?thesis
    using one two s by (simp add: startImport_def kv lw sameButIgnoreBlanksW_def)
qed

text \<open>
  A JSON file with \<^verbatim>\<open>ignoreBlanks\<close> switched off and on: the same call of \<^verbatim>\<open>importJSON\<close>, and
  the same effects to the end.
\<close>

theorem ignoreBlanks_only_for_csv_witness:
  "fileType (importData jsonWorld) \<noteq> ''csv''
   \<and> ignoreBlanks (importData jsonWorld) = True
   \<and> effects (snd (startImport ''db.c'' 7 goodEnv [] [ProgressReported 1 10 True]
        (Resolved \<lparr> aborted = None, docsWritten = 1, docsProcessed = 1 \<rparr>) (Some 7)
        (jsonWorld\<lparr> importData := (importData jsonWorld)\<lparr> ignoreBlanks := False \<rparr> \<rparr>)))
     = effects (snd (startImport ''db.c'' 7 goodEnv [] [ProgressReported 1 10 True]
        (Resolved \<lparr> aborted = None, docsWritten = 1, docsProcessed = 1 \<rparr>) (Some 7) jsonWorld))
   \<and> importerCall (fst (startImport_begin ''db.c'' 7 goodEnv [] jsonWorld)) =
       CalledImportJSON \<lparr> json_dataService = 7, json_ns = ''db.c'', json_input = ''a.json'',
         json_output = Some ''/data/ImportErrorLogs/import-a.json.log'', json_abortSignal = 0,
         json_stopOnErrors = False, json_jsonVariant = ''json'' \<rparr>"
proof -
  have h: "fileType (importData jsonWorld) \<noteq> ''csv''"
    by (simp add: jsonWorld_def world0_def)
  have s: "si_errorLogWriteStream (fst (startImport_begin ''db.c'' 7 goodEnv [] jsonWorld))
            = Some ''/data/ImportErrorLogs/import-a.json.log''"
    by (simp add: startImport_begin_def jsonWorld_def world0_def INITIAL_STATE_def
        createErrorLog_def getErrorLogPath_def goodEnv_def newAbortController_def Let_def)
  show ?thesis
    using ignoreBlanks_only_for_csv[OF h, where ns = "''db.c''" and ds = 7 and env = goodEnv
        and arriving = "[]"
        and events = "[ProgressReported 1 10 True]"
        and outcome = "Resolved \<lparr> aborted = None, docsWritten = 1, docsProcessed = 1 \<rparr>"
        and cur = "Some 7" and b = False] h s
    by (simp add: jsonWorld_def world0_def INITIAL_STATE_def)
qed

end
